theory Spec2Isabelle
  imports Main
begin

section \<open>Text primitives of the generator\<close>

text \<open>
  The program is \<^verbatim>\<open>src/excel_to_uvm_ral.py\<close>: it reads a register table from a spreadsheet
  and writes a UVM register model. Python strings are modelled as \<^typ>\<open>string\<close>; a character is
  one code point below 256. The character classes are those of Python's \<^verbatim>\<open>re\<close> and
  \<^verbatim>\<open>str\<close> on that range: \<^verbatim>\<open>\s\<close> and \<^verbatim>\<open>str.strip()\<close> use the same white space,
  \<^verbatim>\<open>\d\<close> is \<^verbatim>\<open>0-9\<close> there, and \<^verbatim>\<open>[A-Za-z_]\<close> is ASCII.
\<close>

definition is_space :: "char \<Rightarrow> bool" where
  "is_space c \<longleftrightarrow> c \<in> {CHR 0x09, CHR 0x0A, CHR 0x0B, CHR 0x0C, CHR 0x0D,
                       CHR 0x1C, CHR 0x1D, CHR 0x1E, CHR 0x1F, CHR 0x20, CHR 0x85, CHR 0xA0}"

definition is_ident_start :: "char \<Rightarrow> bool" where
  "is_ident_start c \<longleftrightarrow> c \<in> set ''ABCDEFGHIJKLMNOPQRSTUVWXYZabcdefghijklmnopqrstuvwxyz_''"

definition is_digit :: "char \<Rightarrow> bool" where
  "is_digit c \<longleftrightarrow> c \<in> set ''0123456789''"

definition is_ident_char :: "char \<Rightarrow> bool" where
  "is_ident_char c \<longleftrightarrow> is_ident_start c \<or> is_digit c"

text \<open>\<^verbatim>\<open>str.strip()\<close>: white space removed at both ends.\<close>

definition strip :: "string \<Rightarrow> string" where
  "strip s = rev (dropWhile is_space (rev (dropWhile is_space s)))"

text \<open>\<^verbatim>\<open>str.lower()\<close> on code points below 256: the ASCII capitals and the Latin-1 capitals
  \<^verbatim>\<open>0xC0..0xDE\<close> without the multiplication sign \<^verbatim>\<open>0xD7\<close> move up by 32.\<close>

definition lower_char :: "char \<Rightarrow> char" where
  "lower_char c =
     (let n = (of_char c :: nat)
      in if (65 \<le> n \<and> n \<le> 90) \<or> (192 \<le> n \<and> n \<le> 222 \<and> n \<noteq> 215)
         then char_of (n + 32) else c)"

definition lower :: "string \<Rightarrow> string" where
  "lower s = map lower_char s"

text \<open>\<^verbatim>\<open>int(s)\<close> on a string of decimal digits, and the decimal text of an integer as an
  f-string prints it. Python integers are unbounded; so is \<^typ>\<open>int\<close> (the interpreter's
  limit on the number of digits that \<^verbatim>\<open>int\<close> converts is not modelled).\<close>

definition digit_val :: "char \<Rightarrow> int" where
  "digit_val c = int (of_char c - (48::nat))"

definition int_of_digits :: "string \<Rightarrow> int" where
  "int_of_digits ds = foldl (\<lambda>a c. 10 * a + digit_val c) 0 ds"

fun show_nat :: "nat \<Rightarrow> string" where
  "show_nat n =
     (if n < 10 then [''0123456789'' ! n]
      else show_nat (n div 10) @ [''0123456789'' ! (n mod 10)])"

declare show_nat.simps [simp del]

definition show_int :: "int \<Rightarrow> string" where
  "show_int i = (if i < 0 then CHR ''-'' # show_nat (nat (- i)) else show_nat (nat i))"

text \<open>\<^verbatim>\<open>', '.join(xs)\<close>.\<close>

fun join :: "string \<Rightarrow> string list \<Rightarrow> string" where
  "join sep [] = []"
| "join sep [x] = x"
| "join sep (x # y # ys) = x @ sep @ join sep (y # ys)"

section \<open>Field descriptor parser\<close>

text \<open>
  \<^verbatim>\<open>re.match(r"([A-Za-z_][A-Za-z0-9_]*)(?:\s*\[(\d+):(\d+)\])?", field_str)\<close> is anchored at the
  start of the string. Group 1 is the longest identifier prefix: every repetition is greedy, and
  the character that has to follow a repetition (\<^verbatim>\<open>[\<close>, \<^verbatim>\<open>:\<close>, \<^verbatim>\<open>]\<close>) is never in the
  repeated class, so giving characters back never helps; when the bracket part does not match
  after the longest identifier, the optional group matches the empty string.
  \<^term>\<open>match_range\<close> is the optional group on the rest of the string: it returns the digit
  strings of groups 2 and 3.
\<close>

definition match_range :: "string \<Rightarrow> (string \<times> string) option" where
  "match_range rest =
     (case dropWhile is_space rest of
        [] \<Rightarrow> None
      | b # r2 \<Rightarrow>
          if b \<noteq> CHR ''['' \<or> takeWhile is_digit r2 = [] then None
          else (case dropWhile is_digit r2 of
                  [] \<Rightarrow> None
                | c # r4 \<Rightarrow>
                    if c \<noteq> CHR '':'' \<or> takeWhile is_digit r4 = [] then None
                    else (case dropWhile is_digit r4 of
                            [] \<Rightarrow> None
                          | d # r6 \<Rightarrow>
                              if d = CHR '']''
                              then Some (takeWhile is_digit r2, takeWhile is_digit r4)
                              else None)))"

text \<open>
  \<^verbatim>\<open>parse_field\<close> returns either four values or four times \<^verbatim>\<open>None\<close>; the model returns
  \<^term>\<open>Some (field_name, size, lsb, msb)\<close> or \<^term>\<open>None\<close>. Its callers pass a string, so the
  \<^verbatim>\<open>isinstance\<close> test is true. A matched group 2 or 3 is a non-empty digit string, hence truthy.
  The size is \<^verbatim>\<open>msb - lsb + 1 if msb and lsb else 1\<close>: the test is on the two integers.
\<close>

definition parse_field :: "string \<Rightarrow> (string \<times> int \<times> int \<times> int) option" where
  "parse_field field_str =
     (case field_str of
        [] \<Rightarrow> None
      | c # cs \<Rightarrow>
          if is_ident_start c then
            (let field_name = strip (c # takeWhile is_ident_char cs);
                 groups = match_range (dropWhile is_ident_char cs);
                 msb = (case groups of Some (g2, g3) \<Rightarrow> int_of_digits g2 | None \<Rightarrow> 0);
                 lsb = (case groups of Some (g2, g3) \<Rightarrow> int_of_digits g3 | None \<Rightarrow> 0);
                 sz = (if msb \<noteq> 0 \<and> lsb \<noteq> 0 then msb - lsb + 1 else 1)
             in Some (field_name, sz, lsb, msb))
          else None)"

section \<open>The input table\<close>

text \<open>
  A cell of the sheet is \<^term>\<open>None\<close> when it is empty (pandas reads it as NaN) and
  \<^term>\<open>Some s\<close> when it holds a value whose text is \<open>s\<close>. A row is read through the seven
  required columns; the record fields carry the names of the renamed columns, except
  \<open>fields_str\<close>, the column \<^verbatim>\<open>fields\<close>, which has the name the loop gives it.
  Each required column is taken to occur at most once in the first row of the sheet.
\<close>

type_synonym cell = "string option"

record row =
  register_name :: cell
  offset :: cell
  read_write :: cell
  fields_str :: cell
  default_value :: cell
  reset_value :: cell
  description :: cell

text \<open>
  The first row of the sheet, \<^verbatim>\<open>df.iloc[0]\<close>, as pandas hands it to the \<^verbatim>\<open>.str\<close>
  accessor. When every column of the frame is numeric the row is an integer or float series
  (\<open>Numeric_row\<close>); otherwise it is a series of objects, each one missing (\<open>NaN\<close>), a text
  (\<open>Str\<close>) or a number (\<open>Num\<close>, with its text). Cells that hold other kinds of values
  (booleans, dates) are not modelled. In a table, \<open>header\<close> is \<^term>\<open>None\<close> when the sheet has
  no row at all.
\<close>

datatype header_cell = NaN | Str string | Num string

datatype first_row = Numeric_row | Object_row "header_cell list"

record table =
  header :: "first_row option"
  rows :: "row list"

text \<open>The exceptions that \<^verbatim>\<open>df.iloc[0].str.strip()\<close> raises.\<close>

datatype py_error = IndexError | AttributeError

text \<open>
  \<^verbatim>\<open>df.iloc[0].str.strip()\<close>. On a frame with no row \<^verbatim>\<open>iloc[0]\<close> raises
  \<^verbatim>\<open>IndexError\<close>. The \<^verbatim>\<open>.str\<close> accessor raises \<^verbatim>\<open>AttributeError\<close> unless the values
  of the series are inferred, missing values skipped, as strings, as mixed, or as empty: it
  refuses an integer or float series and a series of objects whose present values are all
  numbers; it accepts a series of objects that holds a text, or nothing but missing values.
  Where it is accepted, a text is trimmed and every other value becomes missing.
\<close>

definition label :: "header_cell \<Rightarrow> cell" where
  "label c = (case c of Str s \<Rightarrow> Some (strip s) | _ \<Rightarrow> None)"

definition header_labels :: "first_row option \<Rightarrow> py_error + cell list" where
  "header_labels h =
     (case h of
        None \<Rightarrow> Inl IndexError
      | Some Numeric_row \<Rightarrow> Inl AttributeError
      | Some (Object_row cs) \<Rightarrow>
          if list_ex (\<lambda>c. case c of Str s \<Rightarrow> True | _ \<Rightarrow> False) cs \<or>
             list_all (\<lambda>c. c = NaN) cs
          then Inr (map label cs)
          else Inl AttributeError)"

text \<open>\<^verbatim>\<open>fillna("").astype(str)\<close> on the columns \<^verbatim>\<open>register_name\<close> and \<^verbatim>\<open>fields\<close>.\<close>

definition as_str :: "cell \<Rightarrow> string" where
  "as_str c = (case c of None \<Rightarrow> [] | Some s \<Rightarrow> s)"

text \<open>A cell inside an f-string: NaN prints as \<^verbatim>\<open>nan\<close>.\<close>

definition fmt :: "cell \<Rightarrow> string" where
  "fmt c = (case c of None \<Rightarrow> ''nan'' | Some s \<Rightarrow> s)"

text \<open>\<^verbatim>\<open>default_value if pd.notna(default_value) else 0\<close> inside an f-string.\<close>

definition fmt_reset :: "cell \<Rightarrow> string" where
  "fmt_reset c = (case c of None \<Rightarrow> ''0'' | Some s \<Rightarrow> s)"

definition required_columns :: "string list" where
  "required_columns = [''Register Name'', ''Offset'', ''Read/Write'', ''Fields'',
                       ''Default value'', ''Reset value'', ''Description'']"

text \<open>The required columns that are not among the column labels
  (\<^verbatim>\<open>[col for col in required_columns if col not in df.columns]\<close>).\<close>

definition missing_columns :: "cell list \<Rightarrow> string list" where
  "missing_columns columns = filter (\<lambda>col. Some col \<notin> set columns) required_columns"

text \<open>\<^verbatim>\<open>Series.unique()\<close>: the distinct values in order of first appearance.\<close>

fun unique :: "'a list \<Rightarrow> 'a list" where
  "unique [] = []"
| "unique (x # xs) = x # filter (\<lambda>y. y \<noteq> x) (unique xs)"

section \<open>Register emitter\<close>

text \<open>
  The output file is modelled by the sequence of strings passed to \<^verbatim>\<open>f.write\<close>, in order;
  the text of the file is their concatenation. The two loops that close a register in the middle
  of the table, and the single loop that closes the last register after the table, run the same
  test \<^verbatim>\<open>field_name and size and lsb is not None\<close> on the parse of \<^verbatim>\<open>field.strip()\<close>:
  a missing name is falsy, a name is truthy when it is not empty, a size when it is not zero.
\<close>

definition sep_line :: string where
  "sep_line = ''  //---------------------------------------\<newline>''"

definition decl_line :: "string \<Rightarrow> string" where
  "decl_line field_name = ''    rand uvm_reg_field '' @ field_name @ '';\<newline>''"

definition create_line :: "string \<Rightarrow> string" where
  \<open>create_line field_name =
     ''    '' @ field_name @ '' = uvm_reg_field::type_id::create("'' @ field_name @ ''");\<newline>''\<close>

definition access_line :: "cell \<Rightarrow> string" where
  \<open>access_line rw = ''                           .access("'' @ fmt rw @ ''"),\<newline>''\<close>

definition reset_line :: "cell \<Rightarrow> string" where
  "reset_line dv = ''                           .reset('' @ fmt_reset dv @ ''),\<newline>''"

definition config_lines :: "string \<Rightarrow> int \<Rightarrow> int \<Rightarrow> int \<Rightarrow> cell \<Rightarrow> cell \<Rightarrow> string list" where
  "config_lines field_name sz lsb msb rw dv =
     [create_line field_name,
      ''    '' @ field_name @ ''.configure(.parent(this),\<newline>'',
      ''                           .size('' @ show_int sz @ ''),\<newline>'',
      ''                           .lsb_pos('' @ show_int lsb @ ''),\<newline>'',
      ''                           .msb_pos('' @ show_int msb @ ''),\<newline>'',
      access_line rw,
      ''                           .volatile(0),\<newline>'',
      reset_line dv,
      ''                           .has_reset(1),\<newline>'',
      ''                           .is_rand(1),\<newline>'',
      ''                           .individually_accessible(0));\<newline>'']"

text \<open>The body of the first loop for one entry of the field list: the declaration.\<close>

definition field_decl :: "string \<Rightarrow> string list" where
  "field_decl field =
     (case parse_field (strip field) of
        None \<Rightarrow> []
      | Some (field_name, sz, lsb, msb) \<Rightarrow>
          if field_name \<noteq> [] \<and> sz \<noteq> 0 then [decl_line field_name] else [])"

text \<open>The body of the second loop for one entry: creation and configuration.\<close>

definition field_build :: "cell \<Rightarrow> cell \<Rightarrow> string \<Rightarrow> string list" where
  "field_build rw dv field =
     (case parse_field (strip field) of
        None \<Rightarrow> []
      | Some (field_name, sz, lsb, msb) \<Rightarrow>
          if field_name \<noteq> [] \<and> sz \<noteq> 0 then config_lines field_name sz lsb msb rw dv else [])"

text \<open>The body of the loop after the table for one entry: declaration, then creation and
  configuration, under one test.\<close>

definition field_last :: "cell \<Rightarrow> cell \<Rightarrow> string \<Rightarrow> string list" where
  "field_last rw dv field =
     (case parse_field (strip field) of
        None \<Rightarrow> []
      | Some (field_name, sz, lsb, msb) \<Rightarrow>
          if field_name \<noteq> [] \<and> sz \<noteq> 0
          then decl_line field_name # config_lines field_name sz lsb msb rw dv else [])"

text \<open>Closing the open register when the next register starts (inside the loop over the rows).\<close>

definition close_mid :: "string list \<Rightarrow> cell \<Rightarrow> cell \<Rightarrow> string list" where
  "close_mid flds rw dv =
     [sep_line] @ concat (map field_decl flds) @
     [sep_line, ''  function void build;\<newline>''] @ concat (map (field_build rw dv) flds) @
     [''  endfunction\<newline>'', ''endclass\<newline>\<newline>'']"

text \<open>Closing the last register after the loop over the rows.\<close>

definition close_last :: "string list \<Rightarrow> cell \<Rightarrow> cell \<Rightarrow> string list" where
  "close_last flds rw dv =
     [sep_line] @ concat (map (field_last rw dv) flds) @
     [''  endfunction\<newline>'', ''endclass\<newline>\<newline>'']"

text \<open>Opening a register: class header and constructor.\<close>

definition class_line :: "string \<Rightarrow> string" where
  "class_line reg_name = ''class '' @ reg_name @ '' extends uvm_reg;\<newline>''"

definition open_reg :: "string \<Rightarrow> string list" where
  \<open>open_reg reg_name =
     [class_line reg_name,
      ''  `uvm_object_utils('' @ reg_name @ '')\<newline>\<newline>'',
      sep_line,
      ''  // Constructor\<newline>'',
      sep_line,
      ''  function new(string name = "'' @ reg_name @ ''");\<newline>'',
      ''    super.new(name, 32, UVM_NO_COVERAGE);\<newline>'',
      ''  endfunction\<newline>\<newline>'']\<close>

section \<open>Row classifier and register grouper\<close>

text \<open>
  The state of the loop over the rows: \<^verbatim>\<open>current_reg\<close>, the list \<^verbatim>\<open>fields\<close> (here
  \<open>field_list\<close>, and \<open>flds\<close> where it is an argument) and what has been written so far. \<^verbatim>\<open>if current_reg:\<close> is false for
  \<^verbatim>\<open>None\<close> and for the empty string.
\<close>

record gen_state =
  current_reg :: "string option"
  field_list :: "string list"
  written :: "string list"

definition is_open :: "gen_state \<Rightarrow> bool" where
  "is_open st = (case current_reg st of None \<Rightarrow> False | Some n \<Rightarrow> n \<noteq> [])"

text \<open>
  One iteration. A register is closed with \<^verbatim>\<open>read_write\<close> and \<^verbatim>\<open>default_value\<close> as
  the iteration has just bound them, that is, with the cells of the row that is being read.
\<close>

definition step :: "gen_state \<Rightarrow> row \<Rightarrow> gen_state" where
  "step st r =
     (let reg_name = strip (as_str (register_name r));
          st1 = (if reg_name \<noteq> [] then
                   \<lparr>current_reg = Some reg_name,
                    field_list = [],
                    written = written st @
                      (if is_open st then close_mid (field_list st) (read_write r) (default_value r)
                       else []) @
                      open_reg reg_name\<rparr>
                 else st)
      in if as_str (fields_str r) \<noteq> []
         then st1\<lparr>field_list := field_list st1 @ [strip (as_str (fields_str r))]\<rparr>
         else st1)"

text \<open>The include guard is written before the loop; the closing \<^verbatim>\<open>`endif\<close> is commented out
  in the source.\<close>

definition init_state :: gen_state where
  "init_state =
     \<lparr>current_reg = None, field_list = [],
      written = [''`ifndef REG_MODEL\<newline>'', ''`define REG_MODEL\<newline>\<newline>'']\<rparr>"

text \<open>
  After the loop, \<^verbatim>\<open>read_write\<close> and \<^verbatim>\<open>default_value\<close> still hold the cells of the last
  row. A register is open only when some row has been read, so \<^term>\<open>last rs\<close> is read on a
  non-empty list only.
\<close>

definition finish :: "gen_state \<Rightarrow> row list \<Rightarrow> string list" where
  "finish st rs =
     (if is_open st
      then close_last (field_list st) (read_write (last rs)) (default_value (last rs))
      else [])"

section \<open>Container emitter\<close>

text \<open>\<^verbatim>\<open>df['register_name'].dropna().unique()\<close>, evaluated after
  \<^verbatim>\<open>fillna("").astype(str)\<close> has replaced every empty cell by the empty string.\<close>

definition reg_names :: "row list \<Rightarrow> string list" where
  "reg_names rs = unique (map (\<lambda>r. as_str (register_name r)) rs)"

definition inst_line :: "string \<Rightarrow> string" where
  "inst_line reg_name = ''  rand '' @ reg_name @ '' reg_'' @ lower reg_name @ '';\<newline>''"

definition build_lines :: "string \<Rightarrow> string list" where
  \<open>build_lines reg_name =
     [''    reg_'' @ lower reg_name @ '' = '' @ reg_name @ ''::type_id::create("reg_'' @
        lower reg_name @ ''");\<newline>'',
      ''    reg_'' @ lower reg_name @ ''.build();\<newline>'',
      ''    reg_'' @ lower reg_name @ ''.configure(this);\<newline>'']\<close>

definition map_line :: "string \<Rightarrow> string" where
  \<open>map_line reg_name =
     ''    default_map.add_reg(reg_'' @ lower reg_name @ '', 'h0, "RW");\<newline>''\<close>

definition container :: "string list \<Rightarrow> string list" where
  \<open>container names =
     [''//-------------------------------------------------------------------------\<newline>'',
      ''//'' @ [CHR 0x09] @ ''Register Block Definition\<newline>'',
      ''//-------------------------------------------------------------------------\<newline>'',
      ''class dma_reg_model extends uvm_reg_block;\<newline>'',
      ''  `uvm_object_utils(dma_reg_model)\<newline>\<newline>'',
      ''  //---------------------------------------\<newline>'',
      ''  // Register Instances\<newline>'',
      ''  //---------------------------------------\<newline>''] @
     map inst_line names @
     [''\<newline>  //---------------------------------------\<newline>'',
      ''  // Constructor\<newline>'',
      ''  //---------------------------------------\<newline>'',
      ''  function new (string name = "");\<newline>'',
      ''    super.new(name, build_coverage(UVM_NO_COVERAGE));\<newline>'',
      ''  endfunction\<newline>\<newline>'',
      ''  //---------------------------------------\<newline>'',
      ''  // Build Phase\<newline>'',
      ''  //---------------------------------------\<newline>'',
      ''  function void build();\<newline>''] @
     concat (map build_lines names) @
     [''    //---------------------------------------\<newline>'',
      ''    // Memory Map Creation and Register Map\<newline>'',
      ''    //---------------------------------------\<newline>'',
      ''    default_map = create_map("my_map", 0, 4, UVM_LITTLE_ENDIAN);\<newline>''] @
     map map_line names @
     [''    lock_model();\<newline>'',
      ''  endfunction\<newline>'',
      ''endclass\<newline>\<newline>'']\<close>

section \<open>The whole run\<close>

text \<open>Everything written up to and including the last register class.\<close>

definition register_part :: "row list \<Rightarrow> string list" where
  "register_part rs = (let st = foldl step init_state rs in written st @ finish st rs)"

definition generate :: "row list \<Rightarrow> string list" where
  "generate rs = register_part rs @ container (reg_names rs)"

text \<open>
  What a run prints: a line of text that the source words itself, or the line of
  \<^verbatim>\<open>print(f"Error: {e}")\<close> in the \<^verbatim>\<open>except\<close> clause, which is \<^verbatim>\<open>Error: \<close> followed by
  the text of the exception as the library words it.
\<close>

datatype message = Line string | Error_line py_error

text \<open>
  The result of a run: what is printed, and the writes to the output file, \<^term>\<open>None\<close> when the
  file is never opened. The whole body is inside \<^verbatim>\<open>try ... except Exception\<close>, so the call
  returns in every case. The header statement is the first that can raise, before the column
  check and before the file is opened; no later operation of the model raises (the loading of
  the sheet is outside it).
\<close>

record outcome =
  printed :: message
  file_writes :: "string list option"

definition excel_to_uvm_ral :: "table \<Rightarrow> string \<Rightarrow> outcome" where
  "excel_to_uvm_ral t output_file =
     (case header_labels (header t) of
        Inl e \<Rightarrow> \<lparr>printed = Error_line e, file_writes = None\<rparr>
      | Inr columns \<Rightarrow>
          if missing_columns columns \<noteq> []
          then \<lparr>printed = Line (''Error: Missing required columns: '' @
                                 join '', '' (missing_columns columns) @ ''\<newline>''),
                file_writes = None\<rparr>
          else \<lparr>printed = Line (''UVM RAL file generated: '' @ output_file @ ''\<newline>''),
                file_writes = Some (generate (rows t))\<rparr>)"

definition file_text :: "outcome \<Rightarrow> string option" where
  "file_text res = map_option concat (file_writes res)"

section \<open>Notions used to state the properties\<close>

text \<open>The test \<^verbatim>\<open>if reg_name:\<close> of the loop: the row starts a register.\<close>

definition starts_register :: "row \<Rightarrow> bool" where
  "starts_register r \<longleftrightarrow> strip (as_str (register_name r)) \<noteq> []"

text \<open>What the row appends to the field list (\<^verbatim>\<open>if fields_str: fields.append(...)\<close>).\<close>

definition entry_of :: "row \<Rightarrow> string list" where
  "entry_of r = (if as_str (fields_str r) \<noteq> [] then [strip (as_str (fields_str r))] else [])"

text \<open>The descriptors of the entries of a field list that pass the test of the emitting loops,
  in the order of the list.\<close>

definition accepted_fields :: "string list \<Rightarrow> (string \<times> int \<times> int \<times> int) list" where
  "accepted_fields flds =
     List.map_filter
       (\<lambda>field. case parse_field (strip field) of
                  None \<Rightarrow> None
                | Some (field_name, sz, lsb, msb) \<Rightarrow>
                    if field_name \<noteq> [] \<and> sz \<noteq> 0 then Some (field_name, sz, lsb, msb) else None)
       flds"

text \<open>The entries of a field list for which a declaration is written.\<close>

definition emitted_fields :: "string list \<Rightarrow> string list" where
  "emitted_fields flds = filter (\<lambda>field. field_decl field \<noteq> []) flds"

text \<open>Two states of the loop that cannot be told apart by what is written from them.\<close>

definition same_output :: "gen_state \<Rightarrow> gen_state \<Rightarrow> bool" where
  "same_output st st' \<longleftrightarrow>
     current_reg st = current_reg st' \<and> written st = written st' \<and>
     (is_open st \<longrightarrow> emitted_fields (field_list st) = emitted_fields (field_list st'))"

text \<open>The register name of a written string that is a class header, \<^term>\<open>None\<close> for any other
  string.\<close>

definition class_name_of :: "string \<Rightarrow> string option" where
  "class_name_of line =
     (let n = take (length line - 24) (drop 6 line)
      in if line = class_line n then Some n else None)"

text \<open>A written string that begins neither like a class header nor like an instance
  declaration of the container.\<close>

definition body_line :: "string \<Rightarrow> bool" where
  "body_line c \<longleftrightarrow> take 1 c \<noteq> ''c'' \<and> take 3 c \<noteq> ''  r''"

section \<open>Properties of the text primitives and of the parser\<close>

lemma ident_char_not_space: "is_ident_char c \<Longrightarrow> \<not> is_space c"
  by (auto simp: is_ident_char_def is_ident_start_def is_digit_def is_space_def)

lemma ident_start_char: "is_ident_start c \<Longrightarrow> is_ident_char c"
  by (simp add: is_ident_char_def)

lemma strip_no_space_ends:
  assumes "s \<noteq> []" "\<not> is_space (hd s)" "\<not> is_space (last s)"
  shows "strip s = s"
proof -
  from assms have "dropWhile is_space s = s" by (cases s) auto
  moreover from assms have "dropWhile is_space (rev s) = rev s"
    by (cases "rev s") (auto simp: hd_rev)
  ultimately show ?thesis by (simp add: strip_def)
qed

lemma strip_ends:
  "strip s = [] \<or> (\<not> is_space (hd (strip s)) \<and> \<not> is_space (last (strip s)))"
proof (cases "strip s = []")
  case True then show ?thesis by simp
next
  case False
  let ?d = "dropWhile is_space s"
  let ?e = "dropWhile is_space (rev ?d)"
  have e: "?e \<noteq> []" using False by (simp add: strip_def)
  then have d: "?d \<noteq> []" by (metis dropWhile.simps(1) rev.simps(1))
  have 1: "\<not> is_space (hd ?e)" using e by (rule hd_dropWhile)
  have 2: "\<not> is_space (hd ?d)" using d by (rule hd_dropWhile)
  have "last (strip s) = hd ?e" using e by (simp add: strip_def last_rev)
  moreover have "hd (strip s) = last ?e" using e by (simp add: strip_def hd_rev)
  moreover have "last ?e = last (rev ?d)"
  proof -
    have "last (takeWhile is_space (rev ?d) @ ?e) = last ?e" using e by (rule last_appendR)
    then show ?thesis by (simp only: takeWhile_dropWhile_id)
  qed
  moreover have "last (rev ?d) = hd ?d" using d by (simp add: last_rev)
  ultimately show ?thesis using 1 2 by simp
qed

lemma strip_idem: "strip (strip s) = strip s"
proof (cases "strip s = []")
  case True
  have "strip [] = []" by (simp add: strip_def)
  with True show ?thesis by simp
next
  case False
  with strip_ends [of s] show ?thesis by (intro strip_no_space_ends) auto
qed

lemma strip_ident:
  assumes "is_ident_start c"
  shows "strip (c # takeWhile is_ident_char cs) = c # takeWhile is_ident_char cs"
proof (rule strip_no_space_ends)
  show "c # takeWhile is_ident_char cs \<noteq> []" by simp
  show "\<not> is_space (hd (c # takeWhile is_ident_char cs))"
    using assms by (simp add: ident_char_not_space ident_start_char)
  have "last (c # takeWhile is_ident_char cs) \<in> set (c # takeWhile is_ident_char cs)"
    by (rule last_in_set) simp
  then have "is_ident_char (last (c # takeWhile is_ident_char cs))"
    using assms by (auto simp: ident_start_char dest: set_takeWhileD)
  then show "\<not> is_space (last (c # takeWhile is_ident_char cs))"
    by (rule ident_char_not_space)
qed

lemma parse_field_None_iff:
  "parse_field s = None \<longleftrightarrow> s = [] \<or> \<not> is_ident_start (hd s)"
  by (cases s) (simp_all add: parse_field_def Let_def)

lemma parse_field_Some_name:
  assumes "parse_field s = Some (n, w, l, m)"
  shows "n = hd s # takeWhile is_ident_char (tl s)" and "is_ident_start (hd s)" and "s \<noteq> []"
  using assms by (cases s; simp add: parse_field_def Let_def strip_ident split: if_splits)+

lemma parse_field_name_ident:
  assumes "parse_field s = Some (n, w, l, m)"
  shows "n \<noteq> []" and "\<forall>c\<in>set n. is_ident_char c"
  using parse_field_Some_name [OF assms]
  by (auto simp: ident_start_char dest: set_takeWhileD)

lemma join_names_member:
  "x \<in> set xs \<Longrightarrow> \<exists>u v. join sep xs = u @ x @ v"
proof (induction sep xs rule: join.induct)
  case (1 sep) then show ?case by simp
next
  case (2 sep y)
  then have "join sep [y] = [] @ x @ []" by simp
  then show ?case by blast
next
  case (3 sep y z zs)
  show ?case
  proof (cases "x = y")
    case True
    then have "join sep (y # z # zs) = [] @ x @ (sep @ join sep (z # zs))" by simp
    then show ?thesis by blast
  next
    case False
    with 3 obtain u v where "join sep (z # zs) = u @ x @ v" by auto
    then have "join sep (y # z # zs) = (y @ sep @ u) @ x @ v" by simp
    then show ?thesis by blast
  qed
qed

section \<open>Properties of the emitters and of the loop over the rows\<close>

lemma config_lines_not_Nil: "config_lines n w l m rw dv \<noteq> []"
  by (simp add: config_lines_def)

lemma field_build_Nil_iff: "field_build rw dv field = [] \<longleftrightarrow> field_decl field = []"
  by (simp add: field_build_def field_decl_def config_lines_not_Nil split: option.splits prod.splits)

lemma field_last_Nil_iff: "field_last rw dv field = [] \<longleftrightarrow> field_decl field = []"
  by (simp add: field_last_def field_decl_def split: option.splits prod.splits)

lemma concat_map_filter_Nil:
  "(\<And>x. \<not> P x \<Longrightarrow> g x = []) \<Longrightarrow> concat (map g (filter P xs)) = concat (map g xs)"
  by (induction xs) simp_all

lemma close_mid_emitted: "close_mid (emitted_fields flds) rw dv = close_mid flds rw dv"
proof -
  have "concat (map field_decl (filter (\<lambda>f. field_decl f \<noteq> []) flds)) =
        concat (map field_decl flds)"
    by (rule concat_map_filter_Nil) simp
  moreover have "concat (map (field_build rw dv) (filter (\<lambda>f. field_decl f \<noteq> []) flds)) =
        concat (map (field_build rw dv) flds)"
    by (rule concat_map_filter_Nil) (simp add: field_build_Nil_iff)
  ultimately show ?thesis by (simp add: close_mid_def emitted_fields_def)
qed

lemma close_last_emitted: "close_last (emitted_fields flds) rw dv = close_last flds rw dv"
proof -
  have "concat (map (field_last rw dv) (filter (\<lambda>f. field_decl f \<noteq> []) flds)) =
        concat (map (field_last rw dv) flds)"
    by (rule concat_map_filter_Nil) (simp add: field_last_Nil_iff)
  then show ?thesis by (simp add: close_last_def emitted_fields_def)
qed

lemma emitted_fields_append:
  "emitted_fields (xs @ ys) = emitted_fields xs @ emitted_fields ys"
  by (simp add: emitted_fields_def)

lemma step_start:
  "starts_register r \<Longrightarrow>
   step st r =
     \<lparr>current_reg = Some (strip (as_str (register_name r))),
      field_list = entry_of r,
      written = written st @
        (if is_open st then close_mid (field_list st) (read_write r) (default_value r) else []) @
        open_reg (strip (as_str (register_name r)))\<rparr>"
  by (simp add: step_def starts_register_def entry_of_def Let_def)

lemma step_no_start:
  "\<not> starts_register r \<Longrightarrow> step st r = st\<lparr>field_list := field_list st @ entry_of r\<rparr>"
  by (simp add: step_def starts_register_def entry_of_def Let_def)

lemma is_open_step_start: "starts_register r \<Longrightarrow> is_open (step st r)"
  by (simp add: step_start is_open_def) (simp add: starts_register_def)

lemma is_open_step_no_start: "\<not> starts_register r \<Longrightarrow> is_open (step st r) = is_open st"
  by (simp add: step_no_start is_open_def)

lemma is_open_cong: "current_reg st = current_reg st' \<Longrightarrow> is_open st = is_open st'"
  by (simp add: is_open_def)

lemma same_output_refl: "same_output st st"
  by (simp add: same_output_def)

lemma same_output_step:
  assumes "same_output st st'"
    and "register_name r' = register_name r"
    and "read_write r' = read_write r"
    and "default_value r' = default_value r"
    and "emitted_fields (entry_of r') = emitted_fields (entry_of r)"
  shows "same_output (step st r) (step st' r')"
proof (cases "starts_register r")
  case True
  then have s': "starts_register r'" using assms(2) by (simp add: starts_register_def)
  have o: "is_open st' = is_open st" using assms(1) by (simp add: same_output_def is_open_def)
  have "is_open st \<Longrightarrow> close_mid (field_list st') rw dv = close_mid (field_list st) rw dv" for rw dv
  proof -
    assume "is_open st"
    with assms(1) have "emitted_fields (field_list st) = emitted_fields (field_list st')"
      by (simp add: same_output_def)
    then show ?thesis by (metis close_mid_emitted)
  qed
  with True s' o assms show ?thesis
    by (simp add: step_start same_output_def)
next
  case False
  then have s': "\<not> starts_register r'" using assms(2) by (simp add: starts_register_def)
  from False s' assms show ?thesis
    by (simp add: step_no_start same_output_def is_open_def emitted_fields_append)
qed

lemma same_output_step_closed:
  assumes "same_output st st'" and "\<not> is_open st"
    and "\<not> starts_register r" and "\<not> starts_register r'"
  shows "same_output (step st r) (step st' r') \<and> \<not> is_open (step st r)"
  using assms by (simp add: step_no_start same_output_def is_open_def)

lemma same_output_foldl:
  assumes "list_all2 (\<lambda>r r'. register_name r' = register_name r \<and>
              read_write r' = read_write r \<and> default_value r' = default_value r \<and>
              emitted_fields (entry_of r') = emitted_fields (entry_of r)) rs rs'"
    and "same_output st st'"
  shows "same_output (foldl step st rs) (foldl step st' rs')"
  using assms
proof (induction rs rs' arbitrary: st st' rule: list_all2_induct)
  case Nil
  then show ?case by simp
next
  case (Cons r rs r' rs')
  then have "same_output (step st r) (step st' r')" by (simp add: same_output_step)
  with Cons show ?case by simp
qed

lemma same_output_foldl_closed:
  assumes "list_all2 (\<lambda>r r'. \<not> starts_register r \<and> \<not> starts_register r') rs rs'"
    and "same_output st st'" and "\<not> is_open st"
  shows "same_output (foldl step st rs) (foldl step st' rs') \<and> \<not> is_open (foldl step st rs)"
  using assms
proof (induction rs rs' arbitrary: st st' rule: list_all2_induct)
  case Nil
  then show ?case by simp
next
  case (Cons r rs r' rs')
  then have "same_output (step st r) (step st' r') \<and> \<not> is_open (step st r)"
    by (intro same_output_step_closed) simp_all
  then have "same_output (foldl step (step st r) rs) (foldl step (step st' r') rs') \<and>
             \<not> is_open (foldl step (step st r) rs)"
    using Cons.IH [of "step st r" "step st' r'"] by blast
  then show ?case by simp
qed

lemma same_output_finish:
  assumes "same_output st st'"
    and "is_open st \<Longrightarrow> read_write (last rs') = read_write (last rs) \<and>
           default_value (last rs') = default_value (last rs)"
  shows "written st @ finish st rs = written st' @ finish st' rs'"
proof -
  have o: "is_open st' = is_open st" using assms(1) by (simp add: same_output_def is_open_def)
  show ?thesis
  proof (cases "is_open st")
    case True
    with assms(1) have "emitted_fields (field_list st) = emitted_fields (field_list st')"
      by (simp add: same_output_def)
    then have "close_last (field_list st) rw dv = close_last (field_list st') rw dv" for rw dv
      by (metis close_last_emitted)
    with True o assms show ?thesis by (simp add: finish_def same_output_def)
  next
    case False
    with o assms(1) show ?thesis by (simp add: finish_def same_output_def)
  qed
qed

lemma list_all2_same_rows:
  "list_all2 (\<lambda>r r'. register_name r' = register_name r \<and>
              read_write r' = read_write r \<and> default_value r' = default_value r \<and>
              emitted_fields (entry_of r') = emitted_fields (entry_of r)) rs rs"
  by (simp add: list_all2_same)

lemma register_part_prefix_closed:
  assumes "list_all2 (\<lambda>r r'. \<not> starts_register r \<and> \<not> starts_register r') pre pre'"
  shows "register_part (pre @ rest) = register_part (pre' @ rest)"
proof -
  let ?s = "foldl step init_state pre" and ?s' = "foldl step init_state pre'"
  have closed: "\<not> is_open init_state" by (simp add: init_state_def is_open_def)
  have pre: "same_output ?s ?s' \<and> \<not> is_open ?s"
    using assms same_output_refl closed by (rule same_output_foldl_closed)
  then have all: "same_output (foldl step ?s rest) (foldl step ?s' rest)"
    using list_all2_same_rows same_output_foldl by blast
  have "written (foldl step ?s rest) @ finish (foldl step ?s rest) (pre @ rest) =
        written (foldl step ?s' rest) @ finish (foldl step ?s' rest) (pre' @ rest)"
    using all
  proof (rule same_output_finish)
    assume op: "is_open (foldl step ?s rest)"
    have "rest \<noteq> []"
    proof
      assume "rest = []"
      with op pre show False by simp
    qed
    then show "read_write (last (pre' @ rest)) = read_write (last (pre @ rest)) \<and>
               default_value (last (pre' @ rest)) = default_value (last (pre @ rest))"
      by simp
  qed
  then show ?thesis by (simp add: register_part_def Let_def)
qed

lemma list_all2_last:
  "list_all2 P xs ys \<Longrightarrow> xs \<noteq> [] \<Longrightarrow> P (last xs) (last ys)"
proof (induction xs ys rule: list_all2_induct)
  case Nil then show ?case by simp
next
  case (Cons x xs y ys)
  then show ?case by (cases xs) auto
qed

lemma generate_related:
  assumes rel: "list_all2 (\<lambda>r r'. register_name r' = register_name r \<and>
              read_write r' = read_write r \<and> default_value r' = default_value r \<and>
              emitted_fields (entry_of r') = emitted_fields (entry_of r)) rs rs'"
  shows "generate rs = generate rs'"
proof -
  let ?s = "foldl step init_state rs" and ?s' = "foldl step init_state rs'"
  have sim: "same_output ?s ?s'"
    using rel same_output_refl by (rule same_output_foldl)
  have "written ?s @ finish ?s rs = written ?s' @ finish ?s' rs'"
    using sim
  proof (rule same_output_finish)
    assume op: "is_open ?s"
    have "rs \<noteq> []"
    proof
      assume "rs = []"
      with op show False by (simp add: init_state_def is_open_def)
    qed
    with rel have "register_name (last rs') = register_name (last rs) \<and>
              read_write (last rs') = read_write (last rs) \<and>
              default_value (last rs') = default_value (last rs) \<and>
              emitted_fields (entry_of (last rs')) = emitted_fields (entry_of (last rs))"
      by (rule list_all2_last)
    then show "read_write (last rs') = read_write (last rs) \<and>
               default_value (last rs') = default_value (last rs)"
      by simp
  qed
  then have "register_part rs = register_part rs'" by (simp add: register_part_def Let_def)
  moreover have "map (\<lambda>r. as_str (register_name r)) rs' = map (\<lambda>r. as_str (register_name r)) rs"
    using rel by (induction rs rs' rule: list_all2_induct) simp_all
  ultimately show ?thesis by (simp add: generate_def reg_names_def)
qed

lemma field_decl_not_ident:
  assumes "strip field = [] \<or> \<not> is_ident_start (hd (strip field))"
  shows "field_decl field = []"
  using assms parse_field_None_iff [of "strip field"] by (simp add: field_decl_def)

section \<open>Properties of the written lines\<close>

lemma entry_of_blank: "entry_of (r\<lparr>fields_str := None\<rparr>) = []"
  by (simp add: entry_of_def as_str_def)

lemma emitted_fields_entry_not_ident:
  assumes "strip (as_str (fields_str r)) = [] \<or>
           \<not> is_ident_start (hd (strip (as_str (fields_str r))))"
  shows "emitted_fields (entry_of r) = []"
proof -
  have "field_decl (strip (as_str (fields_str r))) = []"
    using assms by (intro field_decl_not_ident) (simp add: strip_idem)
  then show ?thesis by (simp add: emitted_fields_def entry_of_def)
qed

lemma decls_accepted:
  "concat (map field_decl flds) = map (\<lambda>(n, sz, l, m). decl_line n) (accepted_fields flds)"
  by (induction flds)
    (auto simp: accepted_fields_def field_decl_def map_filter_simps split: option.splits)

lemma builds_accepted:
  "concat (map (field_build rw dv) flds) =
   concat (map (\<lambda>(n, sz, l, m). config_lines n sz l m rw dv) (accepted_fields flds))"
  by (induction flds)
    (auto simp: accepted_fields_def field_build_def map_filter_simps split: option.splits)

lemma lasts_accepted:
  "concat (map (field_last rw dv) flds) =
   concat (map (\<lambda>(n, sz, l, m). decl_line n # config_lines n sz l m rw dv)
             (accepted_fields flds))"
  by (induction flds)
    (auto simp: accepted_fields_def field_last_def map_filter_simps split: option.splits)

lemma field_decl_Some:
  "parse_field (strip field) = Some (n, w, l, m) \<Longrightarrow>
   field_decl field = (if w \<noteq> 0 then [decl_line n] else [])"
  by (frule parse_field_name_ident(1)) (simp add: field_decl_def)

lemma field_build_Some:
  "parse_field (strip field) = Some (n, w, l, m) \<Longrightarrow>
   field_build rw dv field = (if w \<noteq> 0 then config_lines n w l m rw dv else [])"
  by (frule parse_field_name_ident(1)) (simp add: field_build_def)

lemma field_last_Some:
  "parse_field (strip field) = Some (n, w, l, m) \<Longrightarrow>
   field_last rw dv field = (if w \<noteq> 0 then decl_line n # config_lines n w l m rw dv else [])"
  by (frule parse_field_name_ident(1)) (simp add: field_last_def)

lemma class_name_of_class_line: "class_name_of (class_line n) = Some n"
  by (simp add: class_name_of_def class_line_def Let_def)

lemma body_line_not_class:
  assumes "body_line c"
  shows "class_name_of c = None"
proof (rule ccontr)
  assume "class_name_of c \<noteq> None"
  then have eq: "c = class_line (take (length c - 24) (drop 6 c))"
    by (simp add: class_name_of_def Let_def split: if_splits)
  have "take 1 c = ''c''"
    by (subst eq) (simp add: class_line_def)
  with assms show False by (simp add: body_line_def)
qed

lemma body_line_not_inst: "body_line c \<Longrightarrow> c \<noteq> inst_line n"
  by (auto simp: body_line_def inst_line_def)

lemma class_line_not_inst: "class_line n \<noteq> inst_line n'"
  by (simp add: class_line_def inst_line_def)

lemma inst_line_not_class: "class_name_of (inst_line n) = None"
  by (simp add: class_name_of_def Let_def class_line_def inst_line_def)

lemma inst_line_inj: "inst_line n = inst_line n' \<longleftrightarrow> n = n'"
proof
  assume "inst_line n = inst_line n'"
  then have e: "n @ '' reg_'' @ lower n @ '';\<newline>'' = n' @ '' reg_'' @ lower n' @ '';\<newline>''"
    by (simp add: inst_line_def)
  have "length (n @ '' reg_'' @ lower n @ '';\<newline>'') =
        length (n' @ '' reg_'' @ lower n' @ '';\<newline>'')"
    using e by (rule arg_cong)
  then have "length n = length n'" by (simp add: lower_def)
  with e show "n = n'" by simp
qed simp

lemma body_line_config: "c \<in> set (config_lines n w l m rw dv) \<Longrightarrow> body_line c"
  by (auto simp: config_lines_def create_line_def access_line_def reset_line_def body_line_def)

lemma body_line_field_decl: "c \<in> set (field_decl f) \<Longrightarrow> body_line c"
  by (auto simp: field_decl_def decl_line_def body_line_def split: option.splits if_splits)

lemma body_line_field_build: "c \<in> set (field_build rw dv f) \<Longrightarrow> body_line c"
  by (auto simp: field_build_def split: option.splits if_splits dest: body_line_config)

lemma body_line_field_last: "c \<in> set (field_last rw dv f) \<Longrightarrow> body_line c"
  by (auto simp: field_last_def decl_line_def body_line_def
      split: option.splits if_splits dest: body_line_config)

lemma body_line_close_mid: "c \<in> set (close_mid flds rw dv) \<Longrightarrow> body_line c"
  by (auto simp: close_mid_def sep_line_def
      dest: body_line_field_decl body_line_field_build) (simp_all add: body_line_def)

lemma body_line_close_last: "c \<in> set (close_last flds rw dv) \<Longrightarrow> body_line c"
  by (auto simp: close_last_def sep_line_def dest: body_line_field_last)
     (simp_all add: body_line_def)

lemma body_line_sep: "body_line sep_line"
  by (simp add: sep_line_def body_line_def)

lemma filter_open_reg:
  assumes "\<And>c. body_line c \<Longrightarrow> \<not> P c"
  shows "filter P (open_reg n) = filter P [class_line n]"
proof -
  have "body_line (''  `uvm_object_utils('' @ n @ '')\<newline>\<newline>'')"
    by (simp add: body_line_def)
  then have 1: "\<not> P (''  `uvm_object_utils('' @ n @ '')\<newline>\<newline>'')" by (rule assms)
  have 2: "\<not> P sep_line" using body_line_sep by (rule assms)
  have "body_line ''  // Constructor\<newline>''" by (simp add: body_line_def)
  then have 3: "\<not> P ''  // Constructor\<newline>''" by (rule assms)
  have "body_line (''  function new(string name = '' @ [CHR 0x22] @ n @ [CHR 0x22] @ '');\<newline>'')"
    by (simp add: body_line_def)
  then have 4: "\<not> P (''  function new(string name = '' @ [CHR 0x22] @ n @ [CHR 0x22] @ '');\<newline>'')"
    by (rule assms)
  have "body_line ''    super.new(name, 32, UVM_NO_COVERAGE);\<newline>''" by (simp add: body_line_def)
  then have 5: "\<not> P ''    super.new(name, 32, UVM_NO_COVERAGE);\<newline>''" by (rule assms)
  have "body_line ''  endfunction\<newline>\<newline>''" by (simp add: body_line_def)
  then have 6: "\<not> P ''  endfunction\<newline>\<newline>''" by (rule assms)
  show ?thesis
    using 1 2 3 4 5 6 by (simp add: open_reg_def)
qed

lemma filter_all_body: "(\<And>c. c \<in> set xs \<Longrightarrow> body_line c) \<Longrightarrow> filter (\<lambda>c. \<not> body_line c) xs = []"
  by (simp add: filter_empty_conv)

lemma nonbody_class_line: "\<not> body_line (class_line n)"
  by (simp add: body_line_def class_line_def)

lemma nonbody_inst_line: "\<not> body_line (inst_line n)"
  by (simp add: body_line_def inst_line_def)

lemma nonbody_open_reg: "filter (\<lambda>c. \<not> body_line c) (open_reg n) = [class_line n]"
proof -
  have "filter (\<lambda>c. \<not> body_line c) (open_reg n) = filter (\<lambda>c. \<not> body_line c) [class_line n]"
    by (rule filter_open_reg) simp
  then show ?thesis by (simp add: nonbody_class_line)
qed

lemma nonbody_close_mid: "filter (\<lambda>c. \<not> body_line c) (close_mid flds rw dv) = []"
  by (rule filter_all_body) (rule body_line_close_mid)

lemma nonbody_close_last: "filter (\<lambda>c. \<not> body_line c) (close_last flds rw dv) = []"
  by (rule filter_all_body) (rule body_line_close_last)

lemma nonbody_written_foldl:
  "filter (\<lambda>c. \<not> body_line c) (written (foldl step st rs)) =
   filter (\<lambda>c. \<not> body_line c) (written st) @
   map (\<lambda>r. class_line (strip (as_str (register_name r)))) (filter starts_register rs)"
proof (induction rs arbitrary: st)
  case Nil
  then show ?case by simp
next
  case (Cons r rs)
  show ?case
  proof (cases "starts_register r")
    case True
    then show ?thesis
      by (simp add: Cons.IH step_start nonbody_open_reg nonbody_close_mid)
  next
    case False
    then show ?thesis by (simp add: Cons.IH step_no_start)
  qed
qed

lemma nonbody_register_part:
  "filter (\<lambda>c. \<not> body_line c) (register_part rs) =
   map (\<lambda>r. class_line (strip (as_str (register_name r)))) (filter starts_register rs)"
proof -
  have i: "filter (\<lambda>c. \<not> body_line c) (written init_state) = []"
    by (simp add: init_state_def body_line_def)
  have f: "filter (\<lambda>c. \<not> body_line c) (finish st rs) = []" for st
    by (simp add: finish_def nonbody_close_last)
  show ?thesis
    by (simp add: register_part_def Let_def nonbody_written_foldl i f)
qed

lemma nonbody_build_lines: "filter (\<lambda>c. \<not> body_line c) (concat (map build_lines names)) = []"
  by (induction names) (simp_all add: build_lines_def body_line_def)

lemma nonbody_map_lines: "filter (\<lambda>c. \<not> body_line c) (map map_line names) = []"
  by (induction names) (simp_all add: map_line_def body_line_def)

lemma nonbody_inst_lines:
  "filter (\<lambda>c. \<not> body_line c) (map inst_line names) = map inst_line names"
  by (induction names) (simp_all add: nonbody_inst_line)

lemma container_parts:
  "container names =
     take 8 (container []) @ map inst_line names @
     take 10 (drop 8 (container [])) @ concat (map build_lines names) @
     take 4 (drop 18 (container [])) @ map map_line names @
     drop 22 (container [])"
  by (simp add: container_def)

lemma nonbody_container_fixed:
  "filter (\<lambda>c. \<not> body_line c) (take 8 (container [])) =
     [''class dma_reg_model extends uvm_reg_block;\<newline>'']"
  "filter (\<lambda>c. \<not> body_line c) (take 10 (drop 8 (container []))) = []"
  "filter (\<lambda>c. \<not> body_line c) (take 4 (drop 18 (container []))) = []"
  "filter (\<lambda>c. \<not> body_line c) (drop 22 (container [])) = []"
  by (simp_all add: container_def body_line_def)

lemma nonbody_container:
  "filter (\<lambda>c. \<not> body_line c) (container names) =
   ''class dma_reg_model extends uvm_reg_block;\<newline>'' # map inst_line names"
  by (subst container_parts)
     (simp only: filter_append nonbody_container_fixed nonbody_build_lines nonbody_map_lines
        nonbody_inst_lines append_Nil append_Nil2 append_Cons)

lemma nonbody_generate:
  "filter (\<lambda>c. \<not> body_line c) (generate rs) =
   map (\<lambda>r. class_line (strip (as_str (register_name r)))) (filter starts_register rs) @
   ''class dma_reg_model extends uvm_reg_block;\<newline>'' # map inst_line (reg_names rs)"
  by (simp only: generate_def filter_append nonbody_register_part nonbody_container)

lemma filter_nonbody:
  assumes "\<And>c. body_line c \<Longrightarrow> \<not> P c"
  shows "filter P xs = filter P (filter (\<lambda>c. \<not> body_line c) xs)"
  using assms by (induction xs) auto

lemma filter_unique: "filter Q (unique xs) = unique (filter Q xs)"
proof (induction xs)
  case Nil
  then show ?case by simp
next
  case (Cons x xs)
  have "filter Q (filter (\<lambda>y. y \<noteq> x) (unique xs)) = filter (\<lambda>y. y \<noteq> x) (filter Q (unique xs))"
    by (simp add: conj_commute)
  moreover have "filter (\<lambda>y. y \<noteq> x) (unique (filter Q xs)) = unique (filter Q xs)" if "\<not> Q x"
  proof -
    have "x \<notin> set (filter Q (unique xs))" using that by simp
    then have "filter (\<lambda>y. y \<noteq> x) (filter Q (unique xs)) = filter Q (unique xs)"
      by (intro filter_True) auto
    with Cons.IH show ?thesis by simp
  qed
  ultimately show ?case using Cons.IH by simp
qed

lemma class_names_generate:
  "List.map_filter class_name_of (generate rs) =
   map (\<lambda>r. strip (as_str (register_name r))) (filter starts_register rs)"
proof -
  let ?K = "\<lambda>c. class_name_of c \<noteq> None"
  let ?g = "\<lambda>r. strip (as_str (register_name r))"
  have dma: "class_name_of ''class dma_reg_model extends uvm_reg_block;\<newline>'' = None"
    by (simp add: class_name_of_def Let_def class_line_def)
  have a: "filter ?K (generate rs) = filter ?K (filter (\<lambda>c. \<not> body_line c) (generate rs))"
    by (rule filter_nonbody) (simp add: body_line_not_class)
  have b: "filter ?K (map (\<lambda>r. class_line (?g r)) xs @
             ''class dma_reg_model extends uvm_reg_block;\<newline>'' # map inst_line names) =
           map (\<lambda>r. class_line (?g r)) xs" for xs names
    by (simp add: dma inst_line_not_class class_name_of_class_line filter_map o_def)
  have "filter ?K (generate rs) = map (\<lambda>r. class_line (?g r)) (filter starts_register rs)"
    by (simp only: a nonbody_generate b)
  then have "List.map_filter class_name_of (generate rs) =
      map (the \<circ> class_name_of) (map (\<lambda>r. class_line (?g r)) (filter starts_register rs))"
    by (simp only: map_filter_def)
  then show ?thesis
    by (simp add: o_def class_name_of_class_line)
qed

lemma inst_lines_generate:
  "filter (\<lambda>c. c = inst_line A \<or> c = inst_line B) (generate rs) =
   map inst_line (filter (\<lambda>n. n = A \<or> n = B) (reg_names rs))"
proof -
  let ?K = "\<lambda>c. c = inst_line A \<or> c = inst_line B"
  let ?g = "\<lambda>r. strip (as_str (register_name r))"
  have dma: "\<not> ?K ''class dma_reg_model extends uvm_reg_block;\<newline>''"
    by (simp add: inst_line_def)
  have a: "filter ?K (generate rs) = filter ?K (filter (\<lambda>c. \<not> body_line c) (generate rs))"
    by (rule filter_nonbody) (auto dest: body_line_not_inst)
  have b: "filter ?K (map (\<lambda>r. class_line (?g r)) xs @
             ''class dma_reg_model extends uvm_reg_block;\<newline>'' # map inst_line names) =
           map inst_line (filter (\<lambda>n. n = A \<or> n = B) names)" for xs names
    using dma by (simp add: class_line_not_inst inst_line_inj filter_map o_def)
  show ?thesis
    by (simp only: a nonbody_generate b)
qed

section \<open>The parser on identifier-and-range texts\<close>

lemma digit_char_is_digit: "d < 10 \<Longrightarrow> is_digit (''0123456789'' ! d)"
proof -
  assume "d < 10"
  then have "d \<in> {0, 1, 2, 3, 4, 5, 6, 7, 8, 9}" by auto
  then show ?thesis by (auto simp: is_digit_def)
qed

lemma digit_val_digit_char: "d < 10 \<Longrightarrow> digit_val (''0123456789'' ! d) = int d"
proof -
  assume "d < 10"
  then have "d \<in> {0, 1, 2, 3, 4, 5, 6, 7, 8, 9}" by auto
  then show ?thesis by (auto simp: digit_val_def)
qed

lemma show_nat_digits: "x \<in> set (show_nat n) \<Longrightarrow> is_digit x"
proof (induction n arbitrary: x rule: show_nat.induct)
  case (1 n)
  show ?case
  proof (cases "n < 10")
    case True
    with 1(2) show ?thesis by (simp add: show_nat.simps [of n] digit_char_is_digit)
  next
    case False
    with 1 show ?thesis
      by (auto simp: show_nat.simps [of n] digit_char_is_digit)
  qed
qed

lemma show_nat_not_Nil: "show_nat n \<noteq> []"
  by (simp add: show_nat.simps [of n])

lemma int_of_digits_snoc: "int_of_digits (ds @ [c]) = 10 * int_of_digits ds + digit_val c"
  by (simp add: int_of_digits_def)

lemma int_of_digits_show_nat: "int_of_digits (show_nat n) = int n"
proof (induction n rule: show_nat.induct)
  case (1 n)
  show ?case
  proof (cases "n < 10")
    case True
    then show ?thesis
      by (simp add: show_nat.simps [of n] int_of_digits_def digit_val_digit_char)
  next
    case False
    then have "int_of_digits (show_nat n) = 10 * int (n div 10) + int (n mod 10)"
      using 1 by (simp add: show_nat.simps [of n] int_of_digits_snoc digit_val_digit_char)
    moreover have "int n = int (10 * (n div 10) + n mod 10)"
      by (simp only: mult_div_mod_eq)
    moreover have "int (10 * (n div 10) + n mod 10) = 10 * int (n div 10) + int (n mod 10)"
      by (simp only: of_nat_add of_nat_mult of_nat_numeral)
    ultimately show ?thesis by (simp only:)
  qed
qed

lemma takeWhile_stop:
  "\<forall>x\<in>set xs. P x \<Longrightarrow> \<not> P y \<Longrightarrow> takeWhile P (xs @ y # ys) = xs"
  by (induction xs) simp_all

lemma dropWhile_stop:
  "\<forall>x\<in>set xs. P x \<Longrightarrow> \<not> P y \<Longrightarrow> dropWhile P (xs @ y # ys) = y # ys"
  by (induction xs) simp_all

lemma match_range_digits:
  "match_range ('' ['' @ show_nat M @ '':'' @ show_nat L @ '']'') = Some (show_nat M, show_nat L)"
proof -
  have sp: "is_space CHR '' ''" "\<not> is_space CHR ''[''" by (simp_all add: is_space_def)
  have nd: "\<not> is_digit CHR '':''" "\<not> is_digit CHR '']''" by (simp_all add: is_digit_def)
  have dM: "\<forall>x\<in>set (show_nat M). is_digit x" and dL: "\<forall>x\<in>set (show_nat L). is_digit x"
    by (simp_all add: show_nat_digits)
  have 1: "takeWhile is_digit (show_nat M @ CHR '':'' # show_nat L @ '']'') = show_nat M"
    using dM nd(1) by (rule takeWhile_stop)
  have 2: "dropWhile is_digit (show_nat M @ CHR '':'' # show_nat L @ '']'') =
           CHR '':'' # show_nat L @ '']''"
    using dM nd(1) by (rule dropWhile_stop)
  have 3: "takeWhile is_digit (show_nat L @ CHR '']'' # []) = show_nat L"
    using dL nd(2) by (rule takeWhile_stop)
  have 4: "dropWhile is_digit (show_nat L @ CHR '']'' # []) = '']''"
    using dL nd(2) by (rule dropWhile_stop)
  show ?thesis
    by (simp add: match_range_def sp 1 2 3 4 show_nat_not_Nil)
qed

text \<open>
  What the parser returns on every text \<open>Identifier [M:L]\<close> written with decimal numerals: the
  bit positions are \<open>L\<close> and \<open>M\<close>; the width is \<open>M - L + 1\<close> when both are not zero, and 1
  as soon as one of them is zero.
\<close>

lemma parse_field_range:
  assumes "is_ident_start c" and "\<forall>x\<in>set cs. is_ident_char x"
  shows "parse_field (c # cs @ '' ['' @ show_nat M @ '':'' @ show_nat L @ '']'') =
         Some (c # cs, if M \<noteq> 0 \<and> L \<noteq> 0 then int M - int L + 1 else 1, int L, int M)"
proof -
  have ns: "\<not> is_ident_char CHR '' ''"
    by (simp add: is_ident_char_def is_ident_start_def is_digit_def)
  let ?rest = "''['' @ show_nat M @ '':'' @ show_nat L @ '']''"
  have t: "takeWhile is_ident_char (cs @ CHR '' '' # ?rest) = cs"
    using assms(2) ns by (rule takeWhile_stop)
  have d: "dropWhile is_ident_char (cs @ CHR '' '' # ?rest) = CHR '' '' # ?rest"
    using assms(2) ns by (rule dropWhile_stop)
  have s: "strip (c # takeWhile is_ident_char (cs @ CHR '' '' # ?rest)) = c # cs"
    using strip_ident [OF assms(1), of "cs @ CHR '' '' # ?rest"] t by simp
  have m: "match_range (CHR '' '' # ?rest) = Some (show_nat M, show_nat L)"
    using match_range_digits [of M L] by simp
  show ?thesis
    using assms(1) s d m t
    by (simp add: parse_field_def Let_def int_of_digits_show_nat)
qed

section \<open>Claims\<close>

text \<open>
  C1. The claim: for every field text \<open>Identifier [M:L]\<close> with \<open>M \<ge> L \<ge> 0\<close>,
  \<^verbatim>\<open>parse_field\<close> returns width \<open>M - L + 1\<close>, lsb \<open>L\<close> and msb \<open>M\<close>. The code
  computes the width under the test \<^verbatim>\<open>msb and lsb\<close>, which is false when either integer is
  zero: on the text of its own docstring, \<^verbatim>\<open>BUFFER_SIZE [15:0]\<close>, the width is 1, not 16.
  By \<open>parse_field_range\<close> the same happens for every \<open>L = 0\<close>, and the claimed width is
  returned exactly when \<open>M\<close> and \<open>L\<close> are both at least 1.
\<close>

theorem parse_field_docstring_example:
  "parse_field ''BUFFER_SIZE [15:0]'' = Some (''BUFFER_SIZE'', 1, 0, 15) \<and>
   (15::int) - 0 + 1 \<noteq> 1"
  by (simp add: parse_field_def match_range_def is_ident_start_def is_ident_char_def
      is_digit_def is_space_def strip_def int_of_digits_def digit_val_def)

text \<open>
  C2. The claim: the access mode and the reset value written into the configure calls of a
  register are those of the row that opened the register, never of a later row. The code closes
  a register inside the iteration that reads the next register's row, after that iteration has
  bound \<^verbatim>\<open>read_write\<close> and \<^verbatim>\<open>default_value\<close>: register \<open>CTRL\<close>, opened by a row with
  access \<open>RO\<close> and default value 1, followed by register \<open>STATUS\<close> with access \<open>RW\<close> and
  no default value, has its field configured with \<open>RW\<close> and reset 0.
\<close>

theorem closing_uses_next_header_row:
  \<open>register_part
    [\<lparr>register_name = Some ''CTRL'', offset = None, read_write = Some ''RO'', fields_str = Some ''EN'',
      default_value = Some ''1'', reset_value = None, description = None\<rparr>,
     \<lparr>register_name = Some ''STATUS'', offset = None, read_write = Some ''RW'', fields_str = None,
      default_value = None, reset_value = None, description = None\<rparr>] =
    [''`ifndef REG_MODEL\<newline>'',
     ''`define REG_MODEL\<newline>\<newline>'',
     ''class CTRL extends uvm_reg;\<newline>'',
     ''  `uvm_object_utils(CTRL)\<newline>\<newline>'',
     ''  //---------------------------------------\<newline>'',
     ''  // Constructor\<newline>'',
     ''  //---------------------------------------\<newline>'',
     ''  function new(string name = "CTRL");\<newline>'',
     ''    super.new(name, 32, UVM_NO_COVERAGE);\<newline>'',
     ''  endfunction\<newline>\<newline>'',
     ''  //---------------------------------------\<newline>'',
     ''    rand uvm_reg_field EN;\<newline>'',
     ''  //---------------------------------------\<newline>'',
     ''  function void build;\<newline>'',
     ''    EN = uvm_reg_field::type_id::create("EN");\<newline>'',
     ''    EN.configure(.parent(this),\<newline>'',
     ''                           .size(1),\<newline>'',
     ''                           .lsb_pos(0),\<newline>'',
     ''                           .msb_pos(0),\<newline>'',
     ''                           .access("RW"),\<newline>'',
     ''                           .volatile(0),\<newline>'',
     ''                           .reset(0),\<newline>'',
     ''                           .has_reset(1),\<newline>'',
     ''                           .is_rand(1),\<newline>'',
     ''                           .individually_accessible(0));\<newline>'',
     ''  endfunction\<newline>'',
     ''endclass\<newline>\<newline>'',
     ''class STATUS extends uvm_reg;\<newline>'',
     ''  `uvm_object_utils(STATUS)\<newline>\<newline>'',
     ''  //---------------------------------------\<newline>'',
     ''  // Constructor\<newline>'',
     ''  //---------------------------------------\<newline>'',
     ''  function new(string name = "STATUS");\<newline>'',
     ''    super.new(name, 32, UVM_NO_COVERAGE);\<newline>'',
     ''  endfunction\<newline>\<newline>'',
     ''  //---------------------------------------\<newline>'',
     ''  endfunction\<newline>'',
     ''endclass\<newline>\<newline>'']\<close>
  by code_simp

text \<open>
  C3. The claim: the block written for the last register at the end of the table has the shape
  of a block closed in the middle of the table: all declarations, then
  \<^verbatim>\<open>function void build;\<close>, then the create and configure sequence, then
  \<^verbatim>\<open>endfunction\<close> and \<^verbatim>\<open>endclass\<close>. The loop after the table writes each declaration
  directly before the creation of the same field and never writes \<^verbatim>\<open>function void build;\<close>,
  though it writes \<^verbatim>\<open>endfunction\<close>. First the run on a table with the single register
  \<open>CTRL\<close>, then the closing of the same group with the same header values in the middle of a
  table.
\<close>

theorem last_register_without_build_opener:
  \<open>register_part
    [\<lparr>register_name = Some ''CTRL'', offset = None, read_write = Some ''RO'', fields_str = Some ''EN'',
      default_value = Some ''1'', reset_value = None, description = None\<rparr>] =
    [''`ifndef REG_MODEL\<newline>'',
     ''`define REG_MODEL\<newline>\<newline>'',
     ''class CTRL extends uvm_reg;\<newline>'',
     ''  `uvm_object_utils(CTRL)\<newline>\<newline>'',
     ''  //---------------------------------------\<newline>'',
     ''  // Constructor\<newline>'',
     ''  //---------------------------------------\<newline>'',
     ''  function new(string name = "CTRL");\<newline>'',
     ''    super.new(name, 32, UVM_NO_COVERAGE);\<newline>'',
     ''  endfunction\<newline>\<newline>'',
     ''  //---------------------------------------\<newline>'',
     ''    rand uvm_reg_field EN;\<newline>'',
     ''    EN = uvm_reg_field::type_id::create("EN");\<newline>'',
     ''    EN.configure(.parent(this),\<newline>'',
     ''                           .size(1),\<newline>'',
     ''                           .lsb_pos(0),\<newline>'',
     ''                           .msb_pos(0),\<newline>'',
     ''                           .access("RO"),\<newline>'',
     ''                           .volatile(0),\<newline>'',
     ''                           .reset(1),\<newline>'',
     ''                           .has_reset(1),\<newline>'',
     ''                           .is_rand(1),\<newline>'',
     ''                           .individually_accessible(0));\<newline>'',
     ''  endfunction\<newline>'',
     ''endclass\<newline>\<newline>''] \<and>
   close_mid [''EN''] (Some ''RO'') (Some ''1'') =
    [''  //---------------------------------------\<newline>'',
     ''    rand uvm_reg_field EN;\<newline>'',
     ''  //---------------------------------------\<newline>'',
     ''  function void build;\<newline>'',
     ''    EN = uvm_reg_field::type_id::create("EN");\<newline>'',
     ''    EN.configure(.parent(this),\<newline>'',
     ''                           .size(1),\<newline>'',
     ''                           .lsb_pos(0),\<newline>'',
     ''                           .msb_pos(0),\<newline>'',
     ''                           .access("RO"),\<newline>'',
     ''                           .volatile(0),\<newline>'',
     ''                           .reset(1),\<newline>'',
     ''                           .has_reset(1),\<newline>'',
     ''                           .is_rand(1),\<newline>'',
     ''                           .individually_accessible(0));\<newline>'',
     ''  endfunction\<newline>'',
     ''endclass\<newline>\<newline>'']\<close>
  by code_simp

text \<open>
  C4. The claim: the container holds one instance per trimmed, non-empty register name, and a
  row with an empty register-name cell contributes none. The container loops run over
  \<^verbatim>\<open>df['register_name'].dropna().unique()\<close> after \<^verbatim>\<open>fillna("")\<close> has turned every empty
  cell into the empty string, so \<^verbatim>\<open>dropna\<close> removes nothing, and the names are not trimmed
  (the loop over the rows trims them). A table with register \<open>CTRL\<close> and a second row that only
  adds a field gets a container instance for the empty name.
\<close>

theorem container_instance_for_empty_name:
  \<open>reg_names
    [\<lparr>register_name = Some ''CTRL'', offset = None, read_write = Some ''RW'', fields_str = Some ''EN'',
      default_value = Some ''0'', reset_value = None, description = None\<rparr>,
     \<lparr>register_name = None, offset = None, read_write = None, fields_str = Some ''MODE [3:1]'',
      default_value = None, reset_value = None, description = None\<rparr>] = [''CTRL'', ''''] \<and>
   container (reg_names
    [\<lparr>register_name = Some ''CTRL'', offset = None, read_write = Some ''RW'', fields_str = Some ''EN'',
      default_value = Some ''0'', reset_value = None, description = None\<rparr>,
     \<lparr>register_name = None, offset = None, read_write = None, fields_str = Some ''MODE [3:1]'',
      default_value = None, reset_value = None, description = None\<rparr>]) =
    [''//-------------------------------------------------------------------------\<newline>'',
     ''//'' @ [CHR 0x09] @ ''Register Block Definition\<newline>'',
     ''//-------------------------------------------------------------------------\<newline>'',
     ''class dma_reg_model extends uvm_reg_block;\<newline>'',
     ''  `uvm_object_utils(dma_reg_model)\<newline>\<newline>'',
     ''  //---------------------------------------\<newline>'',
     ''  // Register Instances\<newline>'',
     ''  //---------------------------------------\<newline>'',
     ''  rand CTRL reg_ctrl;\<newline>'',
     ''  rand  reg_;\<newline>'',
     ''\<newline>  //---------------------------------------\<newline>'',
     ''  // Constructor\<newline>'',
     ''  //---------------------------------------\<newline>'',
     ''  function new (string name = "");\<newline>'',
     ''    super.new(name, build_coverage(UVM_NO_COVERAGE));\<newline>'',
     ''  endfunction\<newline>\<newline>'',
     ''  //---------------------------------------\<newline>'',
     ''  // Build Phase\<newline>'',
     ''  //---------------------------------------\<newline>'',
     ''  function void build();\<newline>'',
     ''    reg_ctrl = CTRL::type_id::create("reg_ctrl");\<newline>'',
     ''    reg_ctrl.build();\<newline>'',
     ''    reg_ctrl.configure(this);\<newline>'',
     ''    reg_ = ::type_id::create("reg_");\<newline>'',
     ''    reg_.build();\<newline>'',
     ''    reg_.configure(this);\<newline>'',
     ''    //---------------------------------------\<newline>'',
     ''    // Memory Map Creation and Register Map\<newline>'',
     ''    //---------------------------------------\<newline>'',
     ''    default_map = create_map("my_map", 0, 4, UVM_LITTLE_ENDIAN);\<newline>'',
     ''    default_map.add_reg(reg_ctrl, 'h0, "RW");\<newline>'',
     ''    default_map.add_reg(reg_, 'h0, "RW");\<newline>'',
     ''    lock_model();\<newline>'',
     ''  endfunction\<newline>'',
     ''endclass\<newline>\<newline>'']\<close>
  by code_simp

text \<open>
  C5. The claim: an entry of a register's field list gets a declaration and a configure
  sequence if and only if it parses and its computed width is positive; zero and negative widths
  are never written. The test of the emitting loops is the truthiness of the size, so a negative
  width passes: the entry \<open>F [1:3]\<close> has width \<open>-1\<close> and is declared and configured with
  \<^verbatim>\<open>.size(-1)\<close>.
\<close>

theorem negative_width_field_emitted:
  \<open>parse_field (strip ''F [1:3]'') = Some (''F'', - 1, 3, 1) \<and>
   \<not> (0::int) < - 1 \<and>
   field_decl ''F [1:3]'' = [''    rand uvm_reg_field F;\<newline>''] \<and>
   field_build (Some ''RW'') None ''F [1:3]'' =
     [''    F = uvm_reg_field::type_id::create("F");\<newline>'',
      ''    F.configure(.parent(this),\<newline>'',
      ''                           .size(-1),\<newline>'',
      ''                           .lsb_pos(3),\<newline>'',
      ''                           .msb_pos(1),\<newline>'',
      ''                           .access("RW"),\<newline>'',
      ''                           .volatile(0),\<newline>'',
      ''                           .reset(0),\<newline>'',
      ''                           .has_reset(1),\<newline>'',
      ''                           .is_rand(1),\<newline>'',
      ''                           .individually_accessible(0));\<newline>'']\<close>
  by code_simp

text \<open>
  C5, as the code has it: in each of the three emitting loops an entry is written if and only
  if the parse of the trimmed entry succeeds and the computed width is not zero; the writes are
  then the declaration and the configure sequence of the parsed name, width and bit positions.
  A width of zero is never written.
\<close>

theorem field_emitted_iff_width_nonzero:
  "(field_decl field \<noteq> [] \<longleftrightarrow>
      (\<exists>n w l m. parse_field (strip field) = Some (n, w, l, m) \<and> w \<noteq> 0)) \<and>
   (field_build rw dv field \<noteq> [] \<longleftrightarrow>
      (\<exists>n w l m. parse_field (strip field) = Some (n, w, l, m) \<and> w \<noteq> 0)) \<and>
   (field_last rw dv field \<noteq> [] \<longleftrightarrow>
      (\<exists>n w l m. parse_field (strip field) = Some (n, w, l, m) \<and> w \<noteq> 0)) \<and>
   (\<forall>n w l m. parse_field (strip field) = Some (n, w, l, m) \<longrightarrow> w \<noteq> 0 \<longrightarrow>
      field_decl field = [decl_line n] \<and>
      field_build rw dv field = config_lines n w l m rw dv \<and>
      field_last rw dv field = decl_line n # config_lines n w l m rw dv)"
proof -
  have d: "field_decl field \<noteq> [] \<longleftrightarrow>
      (\<exists>n w l m. parse_field (strip field) = Some (n, w, l, m) \<and> w \<noteq> 0)"
  proof (cases "parse_field (strip field)")
    case None
    then show ?thesis by (simp add: field_decl_def)
  next
    case (Some a)
    obtain n w l m where "a = (n, w, l, m)" by (cases a)
    with Some show ?thesis by (simp add: field_decl_Some)
  qed
  show ?thesis
    using d by (auto simp: field_build_Nil_iff field_last_Nil_iff field_decl_Some
        field_build_Some field_last_Some)
qed

theorem field_emitted_iff_width_nonzero_witness:
  "parse_field (strip ''MODE [3:1]'') = Some (''MODE'', 3, 1, 3) \<and> (3::int) \<noteq> 0 \<and>
   field_decl ''MODE [3:1]'' = [decl_line ''MODE''] \<and>
   field_build (Some ''RW'') None ''MODE [3:1]'' =
     config_lines ''MODE'' 3 1 3 (Some ''RW'') None \<and>
   field_last (Some ''RW'') None ''MODE [3:1]'' =
     decl_line ''MODE'' # config_lines ''MODE'' 3 1 3 (Some ''RW'') None \<and>
   parse_field (strip ''MODE [3:4]'') = Some (''MODE'', 0, 4, 3) \<and>
   field_decl ''MODE [3:4]'' = []"
proof -
  have p: "parse_field (strip ''MODE [3:1]'') = Some (''MODE'', 3, 1, 3)"
    by (simp add: parse_field_def match_range_def is_ident_start_def is_ident_char_def
        is_digit_def is_space_def strip_def int_of_digits_def digit_val_def)
  have q: "parse_field (strip ''MODE [3:4]'') = Some (''MODE'', 0, 4, 3)"
    by (simp add: parse_field_def match_range_def is_ident_start_def is_ident_char_def
        is_digit_def is_space_def strip_def int_of_digits_def digit_val_def)
  show ?thesis
    using p q
      field_emitted_iff_width_nonzero [of "''MODE [3:1]''" "Some ''RW''" None]
      field_emitted_iff_width_nonzero [of "''MODE [3:4]''" "Some ''RW''" None]
    by simp
qed

text \<open>
  C6. The claim: with register-start rows named \<open>A\<close>, \<open>B\<close>, \<open>A\<close> the output has two class
  blocks named \<open>A\<close> and one named \<open>B\<close>, and the container's instance, build and map lists
  hold \<open>A\<close> and \<open>B\<close> once each. The loop over the rows trims the register name, the
  container loops do not: when the third cell is \<open>A\<close> followed by a space, the class headers are
  those of \<open>A\<close>, \<open>B\<close>, \<open>A\<close>, but the container runs over three names and declares,
  builds and maps a second instance of class \<open>A\<close>.
\<close>

theorem padded_duplicate_register_name:
  \<open>List.map_filter class_name_of (generate
    [\<lparr>register_name = Some ''A'', offset = None, read_write = Some ''RW'', fields_str = Some ''EN'',
      default_value = None, reset_value = None, description = None\<rparr>,
     \<lparr>register_name = Some ''B'', offset = None, read_write = Some ''RO'', fields_str = None,
      default_value = None, reset_value = None, description = None\<rparr>,
     \<lparr>register_name = Some ''A '', offset = None, read_write = Some ''RW'', fields_str = Some ''GO'',
      default_value = None, reset_value = None, description = None\<rparr>]) = [''A'', ''B'', ''A''] \<and>
   reg_names
    [\<lparr>register_name = Some ''A'', offset = None, read_write = Some ''RW'', fields_str = Some ''EN'',
      default_value = None, reset_value = None, description = None\<rparr>,
     \<lparr>register_name = Some ''B'', offset = None, read_write = Some ''RO'', fields_str = None,
      default_value = None, reset_value = None, description = None\<rparr>,
     \<lparr>register_name = Some ''A '', offset = None, read_write = Some ''RW'', fields_str = Some ''GO'',
      default_value = None, reset_value = None, description = None\<rparr>] = [''A'', ''B'', ''A ''] \<and>
   container (reg_names
    [\<lparr>register_name = Some ''A'', offset = None, read_write = Some ''RW'', fields_str = Some ''EN'',
      default_value = None, reset_value = None, description = None\<rparr>,
     \<lparr>register_name = Some ''B'', offset = None, read_write = Some ''RO'', fields_str = None,
      default_value = None, reset_value = None, description = None\<rparr>,
     \<lparr>register_name = Some ''A '', offset = None, read_write = Some ''RW'', fields_str = Some ''GO'',
      default_value = None, reset_value = None, description = None\<rparr>]) =
    [''//-------------------------------------------------------------------------\<newline>'',
     ''//'' @ [CHR 0x09] @ ''Register Block Definition\<newline>'',
     ''//-------------------------------------------------------------------------\<newline>'',
     ''class dma_reg_model extends uvm_reg_block;\<newline>'',
     ''  `uvm_object_utils(dma_reg_model)\<newline>\<newline>'',
     ''  //---------------------------------------\<newline>'',
     ''  // Register Instances\<newline>'',
     ''  //---------------------------------------\<newline>'',
     ''  rand A reg_a;\<newline>'',
     ''  rand B reg_b;\<newline>'',
     ''  rand A  reg_a ;\<newline>'',
     ''\<newline>  //---------------------------------------\<newline>'',
     ''  // Constructor\<newline>'',
     ''  //---------------------------------------\<newline>'',
     ''  function new (string name = "");\<newline>'',
     ''    super.new(name, build_coverage(UVM_NO_COVERAGE));\<newline>'',
     ''  endfunction\<newline>\<newline>'',
     ''  //---------------------------------------\<newline>'',
     ''  // Build Phase\<newline>'',
     ''  //---------------------------------------\<newline>'',
     ''  function void build();\<newline>'',
     ''    reg_a = A::type_id::create("reg_a");\<newline>'',
     ''    reg_a.build();\<newline>'',
     ''    reg_a.configure(this);\<newline>'',
     ''    reg_b = B::type_id::create("reg_b");\<newline>'',
     ''    reg_b.build();\<newline>'',
     ''    reg_b.configure(this);\<newline>'',
     ''    reg_a  = A ::type_id::create("reg_a ");\<newline>'',
     ''    reg_a .build();\<newline>'',
     ''    reg_a .configure(this);\<newline>'',
     ''    //---------------------------------------\<newline>'',
     ''    // Memory Map Creation and Register Map\<newline>'',
     ''    //---------------------------------------\<newline>'',
     ''    default_map = create_map("my_map", 0, 4, UVM_LITTLE_ENDIAN);\<newline>'',
     ''    default_map.add_reg(reg_a, 'h0, "RW");\<newline>'',
     ''    default_map.add_reg(reg_b, 'h0, "RW");\<newline>'',
     ''    default_map.add_reg(reg_a , 'h0, "RW");\<newline>'',
     ''    lock_model();\<newline>'',
     ''  endfunction\<newline>'',
     ''endclass\<newline>\<newline>'']\<close>
  by code_simp

text \<open>
  When the three cells are exactly \<open>A\<close>, \<open>B\<close>, \<open>A\<close>, without surrounding white space, the
  class headers are those of \<open>A\<close>, \<open>B\<close>, \<open>A\<close>, and the list of names that the three
  container loops run over holds \<open>A\<close> and \<open>B\<close> once each, \<open>A\<close> first (rows that only add
  fields may stand anywhere; they add the empty name to that list).
\<close>

lemma unpadded_duplicate_register_name:
  assumes "map (\<lambda>r. as_str (register_name r)) (filter starts_register rs) = [A, B, A]"
    and "strip A = A" and "strip B = B" and "A \<noteq> B"
  shows "List.map_filter class_name_of (generate rs) = [A, B, A] \<and>
         filter (\<lambda>n. n = A \<or> n = B) (reg_names rs) = [A, B] \<and>
         filter (\<lambda>c. c = inst_line A \<or> c = inst_line B) (generate rs) =
           [inst_line A, inst_line B]"
proof -
  let ?f = "\<lambda>r. as_str (register_name r)"
  let ?Q = "\<lambda>n. n = A \<or> n = B"
  have "map strip (map ?f (filter starts_register rs)) = [A, B, A]"
    using assms by simp
  then have names: "map (\<lambda>r. strip (?f r)) (filter starts_register rs) = [A, B, A]"
    by (simp add: o_def)
  have start: "?Q (?f r) \<longleftrightarrow> starts_register r" if "r \<in> set rs" for r
  proof
    assume q: "?Q (?f r)"
    have "A \<in> set (map (\<lambda>r. strip (?f r)) (filter starts_register rs))"
      and "B \<in> set (map (\<lambda>r. strip (?f r)) (filter starts_register rs))"
      using names by simp_all
    then have "A \<noteq> []" "B \<noteq> []" by (auto simp: starts_register_def)
    with q assms(2,3) show "starts_register r" by (auto simp: starts_register_def)
  next
    assume "starts_register r"
    with that have "?f r \<in> set (map ?f (filter starts_register rs))" by simp
    with assms(1) show "?Q (?f r)" by auto
  qed
  then have "filter (\<lambda>r. ?Q (?f r)) rs = filter starts_register rs"
    by (intro filter_cong) auto
  then have "filter ?Q (map ?f rs) = [A, B, A]"
    using assms(1) by (simp add: filter_map o_def)
  then have regs: "filter ?Q (reg_names rs) = [A, B]"
    using assms(4) by (simp add: reg_names_def filter_unique)
  show ?thesis
    using names regs by (simp add: class_names_generate inst_lines_generate)
qed

text \<open>
  C7. The claim: whenever the header row lacks a required column, the run reports an error that
  names the missing columns, writes no file and returns. The column check is reached only when
  \<^verbatim>\<open>df.iloc[0].str.strip()\<close> returns. On the header row 1, 2, 3, which lacks every required
  column, that statement raises, and the run prints the line of the \<^verbatim>\<open>except\<close> clause with
  the text of the \<^verbatim>\<open>AttributeError\<close>, which names no column; no file is written.
\<close>

theorem numeric_header_error_names_no_column:
  \<open>Some ''Offset'' \<notin> set (map label [Num ''1'', Num ''2'', Num ''3'']) \<and>
   printed (excel_to_uvm_ral
     \<lparr>header = Some (Object_row [Num ''1'', Num ''2'', Num ''3'']), rows =
       [\<lparr>register_name = Some ''CTRL'', offset = None, read_write = Some ''RW'', fields_str = Some ''EN'',
      default_value = None, reset_value = None, description = None\<rparr>]\<rparr> ''uvm_ral_model.sv'') = Error_line AttributeError \<and>
   printed (excel_to_uvm_ral
     \<lparr>header = Some (Object_row [Num ''1'', Num ''2'', Num ''3'']), rows =
       [\<lparr>register_name = Some ''CTRL'', offset = None, read_write = Some ''RW'', fields_str = Some ''EN'',
      default_value = None, reset_value = None, description = None\<rparr>]\<rparr> ''uvm_ral_model.sv'') \<noteq>
     Line (''Error: Missing required columns: '' @ join '', '' required_columns @ ''\<newline>'') \<and>
   file_writes (excel_to_uvm_ral
     \<lparr>header = Some (Object_row [Num ''1'', Num ''2'', Num ''3'']), rows =
       [\<lparr>register_name = Some ''CTRL'', offset = None, read_write = Some ''RW'', fields_str = Some ''EN'',
      default_value = None, reset_value = None, description = None\<rparr>]\<rparr> ''uvm_ral_model.sv'') = None \<and>
   printed (excel_to_uvm_ral \<lparr>header = Some Numeric_row, rows = []\<rparr> ''uvm_ral_model.sv'') =
     Error_line AttributeError\<close>
  by (simp add: excel_to_uvm_ral_def header_labels_def label_def)

text \<open>
  C7, as the code has it. In every run in which a required column \<open>col\<close> is not among the column
  labels no file is written and the run returns. When the header row holds a text, so that the
  header statement returns, the run prints the fixed prefix followed by the required columns
  that are missing, joined by a comma and a space, and \<open>col\<close> occurs in that line. When the
  header statement raises (a sheet with no row, a header row of numbers), the run prints the
  line of the \<^verbatim>\<open>except\<close> clause with the text of that exception.
\<close>

theorem missing_column_no_output:
  assumes "col \<in> set required_columns"
  shows "(header t = Some (Object_row cs) \<and> Str s \<in> set cs \<and> Some col \<notin> set (map label cs) \<longrightarrow>
            file_writes (excel_to_uvm_ral t output_file) = None \<and>
            printed (excel_to_uvm_ral t output_file) =
              Line (''Error: Missing required columns: '' @
                    join '', '' (filter (\<lambda>c. Some c \<notin> set (map label cs)) required_columns) @
                    ''\<newline>'') \<and>
            (\<exists>u v. printed (excel_to_uvm_ral t output_file) =
              Line (''Error: Missing required columns: '' @ u @ col @ v @ ''\<newline>''))) \<and>
         (header_labels (header t) = Inr cols \<and> Some col \<notin> set cols \<longrightarrow>
            file_writes (excel_to_uvm_ral t output_file) = None) \<and>
         (header_labels (header t) = Inl e \<longrightarrow>
            file_writes (excel_to_uvm_ral t output_file) = None \<and>
            printed (excel_to_uvm_ral t output_file) = Error_line e)"
proof (intro conjI impI)
  assume h: "header t = Some (Object_row cs) \<and> Str s \<in> set cs \<and> Some col \<notin> set (map label cs)"
  then have "list_ex (\<lambda>c. case c of Str s \<Rightarrow> True | _ \<Rightarrow> False) cs"
    by (auto simp: list_ex_iff intro!: bexI [of _ "Str s"])
  with h have labels: "header_labels (header t) = Inr (map label cs)"
    by (simp add: header_labels_def)
  from assms h have mem: "col \<in> set (missing_columns (map label cs))"
    by (simp add: missing_columns_def)
  then have ne: "missing_columns (map label cs) \<noteq> []" by auto
  from mem obtain u v where "join '', '' (missing_columns (map label cs)) = u @ col @ v"
    using join_names_member by blast
  then have ex: "\<exists>u v. join '', '' (missing_columns (map label cs)) = u @ col @ v" by blast
  show "file_writes (excel_to_uvm_ral t output_file) = None"
    using labels ne by (simp add: excel_to_uvm_ral_def)
  show "printed (excel_to_uvm_ral t output_file) =
          Line (''Error: Missing required columns: '' @
                join '', '' (filter (\<lambda>c. Some c \<notin> set (map label cs)) required_columns) @
                ''\<newline>'')"
    using labels ne by (simp add: excel_to_uvm_ral_def) (simp add: missing_columns_def)
  show "\<exists>u v. printed (excel_to_uvm_ral t output_file) =
          Line (''Error: Missing required columns: '' @ u @ col @ v @ ''\<newline>'')"
    using labels ne ex by (simp add: excel_to_uvm_ral_def)
next
  assume "header_labels (header t) = Inr cols \<and> Some col \<notin> set cols"
  with assms have "header_labels (header t) = Inr cols" and "missing_columns cols \<noteq> []"
    by (auto simp: missing_columns_def filter_empty_conv)
  then show "file_writes (excel_to_uvm_ral t output_file) = None"
    by (simp add: excel_to_uvm_ral_def)
next
  assume e: "header_labels (header t) = Inl e"
  then show "file_writes (excel_to_uvm_ral t output_file) = None"
    by (simp add: excel_to_uvm_ral_def)
  from e show "printed (excel_to_uvm_ral t output_file) = Error_line e"
    by (simp add: excel_to_uvm_ral_def)
qed

theorem missing_column_no_output_witness:
  "''Offset'' \<in> set required_columns \<and>
   Str ''Read/Write'' \<in> set [Str ''Register Name'', Num ''7'', Str ''Read/Write'',
      Str '' Fields '', NaN, Str ''Default value'', Str ''Reset value'', Str ''Description''] \<and>
   Some ''Offset'' \<notin> set (map label [Str ''Register Name'', Num ''7'', Str ''Read/Write'',
      Str '' Fields '', NaN, Str ''Default value'', Str ''Reset value'', Str ''Description'']) \<and>
   file_writes (excel_to_uvm_ral
      \<lparr>header = Some (Object_row [Str ''Register Name'', Num ''7'', Str ''Read/Write'',
         Str '' Fields '', NaN, Str ''Default value'', Str ''Reset value'', Str ''Description'']),
       rows = []\<rparr> ''uvm_ral_model.sv'') = None \<and>
   printed (excel_to_uvm_ral
      \<lparr>header = Some (Object_row [Str ''Register Name'', Num ''7'', Str ''Read/Write'',
         Str '' Fields '', NaN, Str ''Default value'', Str ''Reset value'', Str ''Description'']),
       rows = []\<rparr> ''uvm_ral_model.sv'') = Line ''Error: Missing required columns: Offset\<newline>'' \<and>
   header_labels (header \<lparr>header = None, rows = []\<rparr>) = Inl IndexError \<and>
   file_writes (excel_to_uvm_ral \<lparr>header = None, rows = []\<rparr> ''uvm_ral_model.sv'') = None \<and>
   printed (excel_to_uvm_ral \<lparr>header = None, rows = []\<rparr> ''uvm_ral_model.sv'') =
     Error_line IndexError"
proof -
  let ?cs = "[Str ''Register Name'', Num ''7'', Str ''Read/Write'',
      Str '' Fields '', NaN, Str ''Default value'', Str ''Reset value'', Str ''Description'']"
  let ?t = "\<lparr>header = Some (Object_row ?cs), rows = []\<rparr>"
  let ?e = "\<lparr>header = None, rows = []\<rparr>"
  have r: "''Offset'' \<in> set required_columns" by (simp add: required_columns_def)
  have h: "header ?t = Some (Object_row ?cs) \<and> Str ''Read/Write'' \<in> set ?cs \<and>
           Some ''Offset'' \<notin> set (map label ?cs)"
    by (simp add: label_def strip_def is_space_def)
  have f: "filter (\<lambda>c. Some c \<notin> set (map label ?cs)) required_columns = [''Offset'']"
    by (simp add: required_columns_def label_def strip_def is_space_def)
  have a: "file_writes (excel_to_uvm_ral ?t ''uvm_ral_model.sv'') = None \<and>
           printed (excel_to_uvm_ral ?t ''uvm_ral_model.sv'') =
             Line (''Error: Missing required columns: '' @
                   join '', '' (filter (\<lambda>c. Some c \<notin> set (map label ?cs)) required_columns) @
                   ''\<newline>'')"
    using h missing_column_no_output [OF r, where t = ?t and cs = ?cs
        and s = "''Read/Write''" and output_file = "''uvm_ral_model.sv''"]
    by blast
  have n: "header_labels (header ?e) = Inl IndexError"
    by (simp add: header_labels_def)
  have b: "file_writes (excel_to_uvm_ral ?e ''uvm_ral_model.sv'') = None \<and>
           printed (excel_to_uvm_ral ?e ''uvm_ral_model.sv'') = Error_line IndexError"
    using n missing_column_no_output [OF r, where t = ?e and e = IndexError
        and output_file = "''uvm_ral_model.sv''"]
    by blast
  from a f have a': "file_writes (excel_to_uvm_ral ?t ''uvm_ral_model.sv'') = None \<and>
           printed (excel_to_uvm_ral ?t ''uvm_ral_model.sv'') =
             Line ''Error: Missing required columns: Offset\<newline>''"
    by simp
  from r h a' n b show ?thesis by blast
qed

text \<open>
  C8. Two tables that differ only in the Fields cells of rows before the first row that starts
  a register give the same run: the same printed line and the same writes. Here \<open>pre\<close> and
  \<open>pre'\<close> are the rows before the first register, equal row by row except for the Fields
  cell, and \<open>rest\<close> is the rest of the table. In particular the writes are those of the table
  whose Fields cells in \<open>pre\<close> are empty, so these entries leave no declaration and no
  configuration.
\<close>

theorem fields_before_first_register_dropped:
  assumes "list_all2 (\<lambda>r r'. r' = r\<lparr>fields_str := fields_str r'\<rparr>) pre pre'"
    and "\<forall>r\<in>set pre. \<not> starts_register r"
  shows "excel_to_uvm_ral \<lparr>header = hdr, rows = pre @ rest\<rparr> output_file =
         excel_to_uvm_ral \<lparr>header = hdr, rows = pre' @ rest\<rparr> output_file \<and>
         generate (pre @ rest) = generate (map (\<lambda>r. r\<lparr>fields_str := None\<rparr>) pre @ rest)"
proof -
  have gen: "generate (p @ rest) = generate (p' @ rest)"
    if rel: "list_all2 (\<lambda>r r'. r' = r\<lparr>fields_str := fields_str r'\<rparr>) p p'"
      and ns: "\<forall>r\<in>set p. \<not> starts_register r" for p p'
  proof -
    have names: "map register_name p' = map register_name p"
      using rel
    proof (induction p p' rule: list_all2_induct)
      case Nil then show ?case by simp
    next
      case (Cons r rs r' rs')
      have "register_name r' = register_name (r\<lparr>fields_str := fields_str r'\<rparr>)"
        using Cons(1) by (rule arg_cong)
      then have "register_name r' = register_name r" by simp
      with Cons(3) show ?case by simp
    qed
    have "list_all2 (\<lambda>r r'. \<not> starts_register r \<and> \<not> starts_register r') p p'"
      using rel ns
    proof (induction p p' rule: list_all2_induct)
      case Nil then show ?case by simp
    next
      case (Cons r rs r' rs')
      have "register_name r' = register_name (r\<lparr>fields_str := fields_str r'\<rparr>)"
        using Cons(1) by (rule arg_cong)
      then have "starts_register r' = starts_register r" by (simp add: starts_register_def)
      with Cons(3,4) show ?case by simp
    qed
    then have "register_part (p @ rest) = register_part (p' @ rest)"
      by (rule register_part_prefix_closed)
    moreover have "reg_names (p @ rest) = reg_names (p' @ rest)"
    proof -
      have "map as_str (map register_name p') = map as_str (map register_name p)"
        using names by simp
      then show ?thesis by (simp add: reg_names_def o_def)
    qed
    ultimately show ?thesis by (simp add: generate_def)
  qed
  have "list_all2 (\<lambda>r r'. r' = r\<lparr>fields_str := fields_str r'\<rparr>) pre
          (map (\<lambda>r. r\<lparr>fields_str := None\<rparr>) pre)"
    by (simp add: list_all2_map2 list_all2_same)
  then have "generate (pre @ rest) = generate (map (\<lambda>r. r\<lparr>fields_str := None\<rparr>) pre @ rest)"
    using assms(2) by (rule gen)
  moreover have "generate (pre @ rest) = generate (pre' @ rest)"
    using assms by (rule gen)
  ultimately show ?thesis by (simp add: excel_to_uvm_ral_def split: sum.splits)
qed

theorem fields_before_first_register_dropped_witness:
  "list_all2 (\<lambda>r r'. r' = r\<lparr>fields_str := fields_str r'\<rparr>)
     [\<lparr>register_name = None, offset = None, read_write = None, fields_str = Some ''LOST [7:4]'',
       default_value = None, reset_value = None, description = None\<rparr>]
     [\<lparr>register_name = None, offset = None, read_write = None, fields_str = Some ''OTHER'',
       default_value = None, reset_value = None, description = None\<rparr>] \<and>
   \<not> starts_register \<lparr>register_name = None, offset = None, read_write = None,
       fields_str = Some ''LOST [7:4]'',
       default_value = None, reset_value = None, description = None\<rparr> \<and>
   excel_to_uvm_ral \<lparr>header = Some (Object_row (map Str required_columns)), rows =
     [\<lparr>register_name = None, offset = None, read_write = None, fields_str = Some ''LOST [7:4]'',
       default_value = None, reset_value = None, description = None\<rparr>,
      \<lparr>register_name = Some ''CTRL'', offset = None, read_write = Some ''RW'',
       fields_str = Some ''EN'', default_value = None, reset_value = None,
       description = None\<rparr>]\<rparr> ''uvm_ral_model.sv'' =
   excel_to_uvm_ral \<lparr>header = Some (Object_row (map Str required_columns)), rows =
     [\<lparr>register_name = None, offset = None, read_write = None, fields_str = Some ''OTHER'',
       default_value = None, reset_value = None, description = None\<rparr>,
      \<lparr>register_name = Some ''CTRL'', offset = None, read_write = Some ''RW'',
       fields_str = Some ''EN'', default_value = None, reset_value = None,
       description = None\<rparr>]\<rparr> ''uvm_ral_model.sv''"
  using fields_before_first_register_dropped
    [where pre = "[\<lparr>register_name = None, offset = None, read_write = None,
           fields_str = Some ''LOST [7:4]'',
           default_value = None, reset_value = None, description = None\<rparr>]"
      and pre' = "[\<lparr>register_name = None, offset = None, read_write = None, fields_str = Some ''OTHER'',
           default_value = None, reset_value = None, description = None\<rparr>]"
      and hdr = "Some (Object_row (map Str required_columns))" and output_file = "''uvm_ral_model.sv''"
      and rest = "[\<lparr>register_name = Some ''CTRL'', offset = None, read_write = Some ''RW'',
           fields_str = Some ''EN'', default_value = None, reset_value = None,
           description = None\<rparr>]"]
  by (simp add: starts_register_def as_str_def strip_def)

text \<open>
  C9. A string that is empty or does not begin with a letter or an underscore: the parser
  returns nothing (the model has no raising operation). An entry whose trimmed text is such a
  string gets no write in any of the three emitting loops; the closing of a register writes the
  same with and without it; and the whole output is the same as if the row's Fields cell were
  empty, so the other fields and the enclosing register are not affected.
\<close>

theorem unparsable_field_ignored:
  assumes "s = [] \<or> \<not> is_ident_start (hd s)"
  shows "parse_field s = None \<and>
         (\<forall>field. strip field = s \<longrightarrow>
            field_decl field = [] \<and> field_build rw dv field = [] \<and>
            field_last rw dv field = [] \<and>
            close_mid (xs @ field # ys) rw dv = close_mid (xs @ ys) rw dv \<and>
            close_last (xs @ field # ys) rw dv = close_last (xs @ ys) rw dv) \<and>
         (\<forall>r::row. strip (as_str (fields_str r)) = s \<longrightarrow>
            generate (pre @ r # post) = generate (pre @ r\<lparr>fields_str := None\<rparr> # post))"
proof (intro conjI allI impI)
  show "parse_field s = None" using assms by (simp add: parse_field_None_iff)
next
  fix field assume f: "strip field = s"
  with assms show d: "field_decl field = []" by (intro field_decl_not_ident) simp
  then show "field_build rw dv field = []" by (simp add: field_build_Nil_iff)
  from d show "field_last rw dv field = []" by (simp add: field_last_Nil_iff)
  from d have e: "emitted_fields (xs @ field # ys) = emitted_fields (xs @ ys)"
    by (simp add: emitted_fields_def)
  show "close_mid (xs @ field # ys) rw dv = close_mid (xs @ ys) rw dv"
    using e by (metis close_mid_emitted)
  show "close_last (xs @ field # ys) rw dv = close_last (xs @ ys) rw dv"
    using e by (metis close_last_emitted)
next
  fix r :: row assume r: "strip (as_str (fields_str r)) = s"
  let ?R = "\<lambda>(r::row) (r'::row). register_name r' = register_name r \<and>
              read_write r' = read_write r \<and> default_value r' = default_value r \<and>
              emitted_fields (entry_of r') = emitted_fields (entry_of r)"
  have "emitted_fields (entry_of r) = []"
    using assms r by (intro emitted_fields_entry_not_ident) simp
  then have "?R r (r\<lparr>fields_str := None\<rparr>)"
    by (simp add: entry_of_blank emitted_fields_def)
  then have "list_all2 ?R (pre @ r # post) (pre @ r\<lparr>fields_str := None\<rparr> # post)"
    by (simp add: list_all2_appendI list_all2_same)
  then show "generate (pre @ r # post) = generate (pre @ r\<lparr>fields_str := None\<rparr> # post)"
    by (rule generate_related)
qed

theorem unparsable_field_ignored_witness:
  "\<not> is_ident_start (hd ''9LIVES [3:1]'') \<and>
   parse_field ''9LIVES [3:1]'' = None \<and>
   close_mid [''EN'', ''9LIVES [3:1]'', ''GO [2:1]''] (Some ''RW'') None =
   close_mid [''EN'', ''GO [2:1]''] (Some ''RW'') None \<and>
   generate
     [\<lparr>register_name = Some ''CTRL'', offset = None, read_write = Some ''RW'',
       fields_str = Some ''EN'', default_value = None, reset_value = None, description = None\<rparr>,
      \<lparr>register_name = None, offset = None, read_write = None,
       fields_str = Some '' 9LIVES [3:1]'', default_value = None, reset_value = None,
       description = None\<rparr>] =
   generate
     [\<lparr>register_name = Some ''CTRL'', offset = None, read_write = Some ''RW'',
       fields_str = Some ''EN'', default_value = None, reset_value = None, description = None\<rparr>,
      \<lparr>register_name = None, offset = None, read_write = None,
       fields_str = None, default_value = None, reset_value = None,
       description = None\<rparr>]"
proof -
  have h: "''9LIVES [3:1]'' = [] \<or> \<not> is_ident_start (hd ''9LIVES [3:1]'')"
    by (simp add: is_ident_start_def)
  have s: "strip '' 9LIVES [3:1]'' = ''9LIVES [3:1]''" "strip ''9LIVES [3:1]'' = ''9LIVES [3:1]''"
    by (simp_all add: strip_def is_space_def)
  show ?thesis
    using h s
      unparsable_field_ignored [OF h, where xs = "[''EN'']" and ys = "[''GO [2:1]'']"
        and rw = "Some ''RW''" and dv = None
        and pre = "[\<lparr>register_name = Some ''CTRL'', offset = None, read_write = Some ''RW'',
           fields_str = Some ''EN'', default_value = None, reset_value = None,
           description = None\<rparr>]"
        and post = "[]"]
    by (auto simp: as_str_def)
qed

text \<open>
  C10. In a register class block an entry is declared if and only if it is created and
  configured: each loop writes nothing for an entry exactly when the declaring loop writes
  nothing for it, and both kinds of block are built from one list, \<^term>\<open>accepted_fields\<close>:
  the declarations are the names of that list and the configure sequences are those of the same
  list, in the same order (interleaved pairwise in the block of the last register).
\<close>

theorem declared_iff_configured:
  "(field_decl field = [] \<longleftrightarrow> field_build rw dv field = []) \<and>
   (field_decl field = [] \<longleftrightarrow> field_last rw dv field = []) \<and>
   close_mid flds rw dv =
     [sep_line] @ map (\<lambda>(n, sz, l, m). decl_line n) (accepted_fields flds) @
     [sep_line, ''  function void build;\<newline>''] @
     concat (map (\<lambda>(n, sz, l, m). config_lines n sz l m rw dv) (accepted_fields flds)) @
     [''  endfunction\<newline>'', ''endclass\<newline>\<newline>''] \<and>
   close_last flds rw dv =
     [sep_line] @
     concat (map (\<lambda>(n, sz, l, m). decl_line n # config_lines n sz l m rw dv)
               (accepted_fields flds)) @
     [''  endfunction\<newline>'', ''endclass\<newline>\<newline>'']"
  by (simp add: field_build_Nil_iff field_last_Nil_iff close_mid_def close_last_def
      decls_accepted builds_accepted lasts_accepted)

theorem declared_iff_configured_witness:
  "accepted_fields [''EN'', ''9LIVES'', ''MODE [3:1]'', ''GAP [2:3]''] =
     [(''EN'', 1, 0, 0), (''MODE'', 3, 1, 3)] \<and>
   close_mid [''EN'', ''9LIVES'', ''MODE [3:1]'', ''GAP [2:3]''] (Some ''RW'') None =
     [sep_line, decl_line ''EN'', decl_line ''MODE'', sep_line,
      ''  function void build;\<newline>''] @
     config_lines ''EN'' 1 0 0 (Some ''RW'') None @
     config_lines ''MODE'' 3 1 3 (Some ''RW'') None @
     [''  endfunction\<newline>'', ''endclass\<newline>\<newline>''] \<and>
   close_last [''EN'', ''9LIVES'', ''MODE [3:1]'', ''GAP [2:3]''] (Some ''RW'') None =
     [sep_line, decl_line ''EN''] @ config_lines ''EN'' 1 0 0 (Some ''RW'') None @
     [decl_line ''MODE''] @ config_lines ''MODE'' 3 1 3 (Some ''RW'') None @
     [''  endfunction\<newline>'', ''endclass\<newline>\<newline>'']"
proof -
  have a: "accepted_fields [''EN'', ''9LIVES'', ''MODE [3:1]'', ''GAP [2:3]''] =
     [(''EN'', 1, 0, 0), (''MODE'', 3, 1, 3)]"
    by (simp add: accepted_fields_def map_filter_simps parse_field_def match_range_def
        is_ident_start_def is_ident_char_def is_digit_def is_space_def strip_def
        int_of_digits_def digit_val_def)
  show ?thesis
    using a
      declared_iff_configured [of "''EN''" "Some ''RW''" None
        "[''EN'', ''9LIVES'', ''MODE [3:1]'', ''GAP [2:3]'']"]
    by simp
qed

end
